theory Spec2Isabelle
  imports Main "HOL-Library.List_Lexorder"
begin

section \<open>Python strings and the wall clock\<close>

text \<open>
  A Python \<^verbatim>\<open>str\<close> is a sequence of Unicode code points; \<^verbatim>\<open>len\<close>, slicing and
  \<^verbatim>\<open>==\<close> work on code points. It is modelled as a list of code points, and an ASCII
  literal of the source is written \<open>ascii ''...''\<close>. SQLite orders TEXT values bytewise on
  their UTF-8 encoding, which is the lexicographic order of the code points.
\<close>

type_synonym pystr = "nat list"

definition ascii :: "string \<Rightarrow> pystr" where
  "ascii s = map of_char s"

text \<open>Decimal rendering, as an f-string does for an \<^verbatim>\<open>int\<close>.\<close>

fun str_nat :: "nat \<Rightarrow> pystr" where
  "str_nat n = (if n < 10 then [48 + n] else str_nat (n div 10) @ [48 + n mod 10])"

declare str_nat.simps [simp del]

definition str_int :: "int \<Rightarrow> pystr" where
  "str_int i = (if i < 0 then 45 # str_nat (nat (- i)) else str_nat (nat i))"

definition zfill :: "nat \<Rightarrow> pystr \<Rightarrow> pystr" where
  "zfill k s = replicate (k - length s) 48 @ s"

text \<open>One reading of \<^verbatim>\<open>datetime.now()\<close>, and the renderings the source takes of it.\<close>

record datetime =
  dt_year :: nat
  dt_month :: nat
  dt_day :: nat
  dt_hour :: nat
  dt_minute :: nat
  dt_second :: nat
  dt_microsecond :: nat

definition strftime_HM :: "datetime \<Rightarrow> pystr" where
  \<comment> \<open>\<^verbatim>\<open>strftime("%H:%M")\<close>\<close>
  "strftime_HM t = zfill 2 (str_nat (dt_hour t)) @ ascii '':'' @ zfill 2 (str_nat (dt_minute t))"

definition strftime_Ymd :: "datetime \<Rightarrow> pystr" where
  \<comment> \<open>\<^verbatim>\<open>strftime("%Y-%m-%d")\<close>\<close>
  "strftime_Ymd t =
     zfill 4 (str_nat (dt_year t)) @ ascii ''-'' @ zfill 2 (str_nat (dt_month t)) @ ascii ''-''
       @ zfill 2 (str_nat (dt_day t))"

definition strftime_Ymd_HM :: "datetime \<Rightarrow> pystr" where
  \<comment> \<open>\<^verbatim>\<open>strftime('%Y%m%d_%H%M')\<close>\<close>
  "strftime_Ymd_HM t =
     zfill 4 (str_nat (dt_year t)) @ zfill 2 (str_nat (dt_month t)) @ zfill 2 (str_nat (dt_day t))
       @ ascii ''_'' @ zfill 2 (str_nat (dt_hour t)) @ zfill 2 (str_nat (dt_minute t))"

definition isoformat :: "datetime \<Rightarrow> pystr" where
  "isoformat t =
     strftime_Ymd t @ ascii ''T'' @ zfill 2 (str_nat (dt_hour t)) @ ascii '':''
       @ zfill 2 (str_nat (dt_minute t)) @ ascii '':'' @ zfill 2 (str_nat (dt_second t))
       @ (if dt_microsecond t = 0 then [] else ascii ''.'' @ zfill 6 (str_nat (dt_microsecond t)))"

section \<open>The three tables\<close>

text \<open>
  One record per table of \<^verbatim>\<open>setup_database\<close>, one field per column; INTEGER columns that
  the source only ever sets to 0 or 1 and tests for truth are booleans. A table is the list
  of its rows in rowid order, the order of a scan: for \<^verbatim>\<open>chat_settings\<close> the rowid is
  the \<^verbatim>\<open>chat_id\<close>, the other two tables grow at the end.
\<close>

record chat_settings_row =
  cs_chat_id :: int
  cs_chat_title :: "pystr option"
  cs_night_mode_enabled :: bool
  cs_start_time :: pystr
  cs_end_time :: pystr
  cs_welcome_message :: pystr
  cs_is_active :: bool
  cs_added_date :: "pystr option"
  cs_last_notification_date :: "pystr option"
  cs_is_night_mode_active :: bool

record night_sessions_row =
  ns_session_id :: pystr
  ns_chat_id :: int
  ns_start_time :: pystr
  ns_end_time :: pystr
  ns_message_count :: nat
  ns_is_completed :: bool

record saved_messages_row =
  sm_id :: nat
  sm_chat_id :: int
  sm_message_id :: int
  sm_user_id :: int
  sm_message_text :: pystr
  sm_message_type :: pystr
  sm_saved_date :: pystr
  sm_night_mode_session :: pystr

record db =
  chat_settings :: "chat_settings_row list"
  night_sessions :: "night_sessions_row list"
  saved_messages :: "saved_messages_row list"

definition empty_db :: db where
  "empty_db = \<lparr>chat_settings = [], night_sessions = [], saved_messages = []\<rparr>"

section \<open>The world outside the process\<close>

text \<open>
  The Telegram API and the SQLite file can fail. \<^verbatim>\<open>send_message\<close> and
  \<^verbatim>\<open>delete_message\<close> catch every exception and return a boolean, so the remote side is an
  oracle for that boolean, asked with the chat and the message. A store statement either
  runs or raises; \<open>raises\<close> says which statements raise, for which chat. A statement that
  raises changes nothing itself, and what earlier statements of the same transaction wrote
  stays visible on the shared connection: SQLite undoes the failing statement only, and the
  source never rolls back. The trace of remote calls is what the outside sees of a run.
  The Unicode database of the Python runtime is outside the source too:
  \<open>unicode_decimal\<close> says which code points other than the ten ASCII digits it takes as
  decimal digits.
\<close>

datatype stmt =
    SelectEnabledChats
  | InsertSession int
  | ActivateChat int
  | CommitOpen int
  | SelectOpenSession int
  | SelectMessages int
  | SelectSettings int
  | CompleteSession int
  | DeactivateChat int
  | InsertMessage int
  | UpdateSettings int

datatype exn = StoreError

datatype outgoing =
    Notification pystr
  | CleanupReport nat pystr pystr

datatype remote_call =
    SendMessage int outgoing bool
  | DeleteMessage int int bool

record world =
  send_ok :: "int \<Rightarrow> outgoing \<Rightarrow> bool"
  delete_ok :: "int \<Rightarrow> int \<Rightarrow> bool"
  is_admin :: "int \<Rightarrow> int \<Rightarrow> bool"
  raises :: "stmt \<Rightarrow> bool"
  unicode_decimal :: "nat \<Rightarrow> bool"

definition send_message :: "world \<Rightarrow> int \<Rightarrow> outgoing \<Rightarrow> remote_call" where
  "send_message w chat_id text = SendMessage chat_id text (send_ok w chat_id text)"

definition delete_message :: "world \<Rightarrow> int \<Rightarrow> int \<Rightarrow> remote_call" where
  "delete_message w chat_id message_id =
     DeleteMessage chat_id message_id (delete_ok w chat_id message_id)"

section \<open>Store statements\<close>

definition get_chat_settings :: "int \<Rightarrow> db \<Rightarrow> chat_settings_row option" where
  \<comment> \<open>\<^verbatim>\<open>SELECT * FROM chat_settings WHERE chat_id = ?\<close>, \<^verbatim>\<open>fetchone\<close>\<close>
  "get_chat_settings chat_id d = find (\<lambda>r. cs_chat_id r = chat_id) (chat_settings d)"

definition select_enabled_chats :: "db \<Rightarrow> chat_settings_row list" where
  \<comment> \<open>\<^verbatim>\<open>WHERE night_mode_enabled = 1 AND is_active = 1\<close>\<close>
  "select_enabled_chats d =
     filter (\<lambda>r. cs_night_mode_enabled r \<and> cs_is_active r) (chat_settings d)"

definition open_sessions :: "int \<Rightarrow> db \<Rightarrow> night_sessions_row list" where
  \<comment> \<open>\<^verbatim>\<open>WHERE chat_id = ? AND is_completed = 0\<close>\<close>
  "open_sessions chat_id d =
     filter (\<lambda>s. ns_chat_id s = chat_id \<and> \<not> ns_is_completed s) (night_sessions d)"

text \<open>
  \<^verbatim>\<open>ORDER BY start_time DESC LIMIT 1\<close>: a row with the greatest start time. SQLite leaves
  the choice among equal start times open; here the earliest such row is taken.
\<close>

fun latest_session :: "night_sessions_row list \<Rightarrow> night_sessions_row option" where
  "latest_session [] = None"
| "latest_session (s # ss) =
     (case latest_session ss of
        None \<Rightarrow> Some s
      | Some t \<Rightarrow> if ns_start_time s < ns_start_time t then Some t else Some s)"

definition select_open_session :: "int \<Rightarrow> db \<Rightarrow> pystr option" where
  "select_open_session chat_id d = map_option ns_session_id (latest_session (open_sessions chat_id d))"

definition select_messages :: "int \<Rightarrow> pystr \<Rightarrow> db \<Rightarrow> int list" where
  \<comment> \<open>\<^verbatim>\<open>SELECT message_id FROM saved_messages WHERE chat_id = ? AND night_mode_session = ?\<close>\<close>
  "select_messages chat_id session_id d =
     map sm_message_id
       (filter (\<lambda>m. sm_chat_id m = chat_id \<and> sm_night_mode_session m = session_id)
          (saved_messages d))"

definition insert_or_replace_session :: "night_sessions_row \<Rightarrow> db \<Rightarrow> db" where
  \<comment> \<open>\<^verbatim>\<open>INSERT OR REPLACE\<close> on the primary key \<^verbatim>\<open>session_id\<close>\<close>
  "insert_or_replace_session row d =
     d\<lparr>night_sessions :=
         filter (\<lambda>s. ns_session_id s \<noteq> ns_session_id row) (night_sessions d) @ [row]\<rparr>"

definition activate_chat :: "int \<Rightarrow> pystr \<Rightarrow> db \<Rightarrow> db" where
  \<comment> \<open>\<^verbatim>\<open>UPDATE chat_settings SET is_night_mode_active = 1, last_notification_date = ?\<close>\<close>
  "activate_chat chat_id current_date d =
     d\<lparr>chat_settings :=
         map (\<lambda>r. if cs_chat_id r = chat_id
                   then r\<lparr>cs_is_night_mode_active := True,
                          cs_last_notification_date := Some current_date\<rparr>
                   else r)
           (chat_settings d)\<rparr>"

definition complete_session :: "pystr \<Rightarrow> nat \<Rightarrow> db \<Rightarrow> db" where
  \<comment> \<open>\<^verbatim>\<open>UPDATE night_sessions SET is_completed = 1, message_count = ? WHERE session_id = ?\<close>\<close>
  "complete_session session_id deleted_count d =
     d\<lparr>night_sessions :=
         map (\<lambda>s. if ns_session_id s = session_id
                   then s\<lparr>ns_is_completed := True, ns_message_count := deleted_count\<rparr>
                   else s)
           (night_sessions d)\<rparr>"

definition deactivate_chat :: "int \<Rightarrow> db \<Rightarrow> db" where
  \<comment> \<open>\<^verbatim>\<open>UPDATE chat_settings SET is_night_mode_active = 0 WHERE chat_id = ?\<close>\<close>
  "deactivate_chat chat_id d =
     d\<lparr>chat_settings :=
         map (\<lambda>r. if cs_chat_id r = chat_id then r\<lparr>cs_is_night_mode_active := False\<rparr> else r)
           (chat_settings d)\<rparr>"

section \<open>\<^verbatim>\<open>end_night_mode\<close>\<close>

text \<open>
  The deletion loop: one \<^verbatim>\<open>delete_message\<close> per selected row, in order, counting the calls
  that returned true. The calls made are kept as a trace.
\<close>

fun delete_loop :: "world \<Rightarrow> int \<Rightarrow> int list \<Rightarrow> nat \<Rightarrow> remote_call list \<Rightarrow> nat \<times> remote_call list" where
  "delete_loop w chat_id [] deleted_count calls = (deleted_count, calls)"
| "delete_loop w chat_id (message_id # messages) deleted_count calls =
     delete_loop w chat_id messages
       (if delete_ok w chat_id message_id then deleted_count + 1 else deleted_count)
       (calls @ [delete_message w chat_id message_id])"

text \<open>
  The whole body runs inside \<^verbatim>\<open>try\<close>: a raising statement ends the call with the state as
  it is at that point. A raising \<^verbatim>\<open>commit\<close> leaves the state on the connection as it is,
  so it needs no branch of its own here.
\<close>

definition end_night_mode :: "world \<Rightarrow> int \<Rightarrow> db \<Rightarrow> db \<times> remote_call list" where
  "end_night_mode w chat_id d =
     (if raises w (SelectOpenSession chat_id) then (d, [])
      else case select_open_session chat_id d of
        None \<Rightarrow> (d, [])
      | Some session_id \<Rightarrow>
          if raises w (SelectMessages chat_id) then (d, [])
          else
            let messages = select_messages chat_id session_id d;
                counted = delete_loop w chat_id messages 0 [];
                deleted_count = fst counted;
                deletions = snd counted
            in if raises w (SelectSettings chat_id) then (d, deletions)
               else
                 let report =
                       (case get_chat_settings chat_id d of
                          None \<Rightarrow> []
                        | Some settings \<Rightarrow>
                            [send_message w chat_id
                               (CleanupReport deleted_count (cs_start_time settings)
                                  (cs_end_time settings))])
                 in if raises w (CompleteSession chat_id) then (d, deletions @ report)
                    else
                      let d1 = complete_session session_id deleted_count d
                      in if raises w (DeactivateChat chat_id) then (d1, deletions @ report)
                         else (deactivate_chat chat_id d1, deletions @ report))"

section \<open>\<^verbatim>\<open>background_time_check\<close>\<close>

text \<open>
  The body of the \<^verbatim>\<open>for\<close> loop for one fetched row. The row is the snapshot fetched at
  the start of the tick; the statements act on the current state. The source reads the
  clock several times in one tick; here a tick has one reading. The three store
  statements of the opening branch are not inside a \<^verbatim>\<open>try\<close> of their own, so an
  exception leaves the loop; \<^verbatim>\<open>end_night_mode\<close> catches its own.
\<close>

definition background_time_check_chat ::
  "world \<Rightarrow> datetime \<Rightarrow> chat_settings_row \<Rightarrow> db \<Rightarrow> exn option \<times> db \<times> remote_call list" where
  "background_time_check_chat w now row d =
     (let current_time = strftime_HM now;
          current_date = strftime_Ymd now;
          chat_id = cs_chat_id row
      in if current_time = cs_start_time row \<and> \<not> cs_is_night_mode_active row then
           (let session_id = str_int chat_id @ ascii ''_'' @ strftime_Ymd_HM now
            in if raises w (InsertSession chat_id) then (Some StoreError, d, [])
               else
                 let d1 = insert_or_replace_session
                            \<lparr>ns_session_id = session_id, ns_chat_id = chat_id,
                             ns_start_time = isoformat now, ns_end_time = cs_end_time row,
                             ns_message_count = 0, ns_is_completed = False\<rparr> d
                 in if raises w (ActivateChat chat_id) then (Some StoreError, d1, [])
                    else
                      let d2 = activate_chat chat_id current_date d1;
                          sent = send_message w chat_id (Notification (cs_welcome_message row))
                      in if raises w (CommitOpen chat_id) then (Some StoreError, d2, [sent])
                         else (None, d2, [sent]))
         else if current_time = cs_end_time row \<and> cs_is_night_mode_active row then
           (case end_night_mode w chat_id d of (d', calls) \<Rightarrow> (None, d', calls))
         else (None, d, []))"

fun background_time_check_chats ::
  "world \<Rightarrow> datetime \<Rightarrow> chat_settings_row list \<Rightarrow> db \<Rightarrow> exn option \<times> db \<times> remote_call list" where
  "background_time_check_chats w now [] d = (None, d, [])"
| "background_time_check_chats w now (row # rows) d =
     (case background_time_check_chat w now row d of
        (Some e, d', calls) \<Rightarrow> (Some e, d', calls)
      | (None, d', calls) \<Rightarrow>
          (case background_time_check_chats w now rows d' of
             (e, d'', calls') \<Rightarrow> (e, d'', calls @ calls')))"

text \<open>
  One iteration of \<^verbatim>\<open>while True\<close>: the \<^verbatim>\<open>except\<close> clause logs the exception and the
  iteration ends.
\<close>

definition background_time_check_tick :: "world \<Rightarrow> datetime \<Rightarrow> db \<Rightarrow> db \<times> remote_call list" where
  "background_time_check_tick w now d =
     (if raises w SelectEnabledChats then (d, [])
      else case background_time_check_chats w now (select_enabled_chats d) d of
        (e, d', calls) \<Rightarrow> (d', calls))"

text \<open>
  The loop never ends by itself; a run is given by the clock reading and the world of each
  of its iterations.
\<close>

fun background_time_check :: "(world \<times> datetime) list \<Rightarrow> db \<Rightarrow> db \<times> remote_call list" where
  "background_time_check [] d = (d, [])"
| "background_time_check ((w, now) # ticks) d =
     (case background_time_check_tick w now d of
        (d', calls) \<Rightarrow>
          (case background_time_check ticks d' of (d'', calls') \<Rightarrow> (d'', calls @ calls')))"

section \<open>Capturing messages\<close>

definition save_message ::
  "world \<Rightarrow> datetime \<Rightarrow> int \<Rightarrow> int \<Rightarrow> int \<Rightarrow> pystr \<Rightarrow> pystr \<Rightarrow> pystr \<Rightarrow> db \<Rightarrow> db" where
  \<comment> \<open>\<^verbatim>\<open>id\<close> is AUTOINCREMENT and no row is ever deleted, so it is the row count plus one\<close>
  "save_message w now chat_id message_id user_id message_text message_type session_id d =
     (if raises w (InsertMessage chat_id) then d
      else d\<lparr>saved_messages := saved_messages d @
             [\<lparr>sm_id = Suc (length (saved_messages d)), sm_chat_id = chat_id,
               sm_message_id = message_id, sm_user_id = user_id,
               sm_message_text = take 500 message_text, sm_message_type = message_type,
               sm_saved_date = isoformat now, sm_night_mode_session = session_id\<rparr>]\<rparr>)"

definition get_current_session :: "int \<Rightarrow> db \<Rightarrow> pystr option" where
  "get_current_session chat_id d = select_open_session chat_id d"

text \<open>
  \<^verbatim>\<open>handle_group_message\<close>, as far as it touches the store: the commands \<^verbatim>\<open>/id\<close>,
  \<^verbatim>\<open>/start\<close>, \<^verbatim>\<open>/status\<close> and \<^verbatim>\<open>/test_night\<close> only reply and return; \<^verbatim>\<open>/force_cleanup\<close>
  from an administrator runs \<^verbatim>\<open>end_night_mode\<close>; everything else is saved when the chat
  is in night mode. An exception of the two reads leaves the function with the state
  unchanged.
\<close>

definition handle_group_message ::
  "world \<Rightarrow> datetime \<Rightarrow> pystr \<Rightarrow> int \<Rightarrow> int \<Rightarrow> int \<Rightarrow> pystr \<Rightarrow> db \<Rightarrow> db" where
  "handle_group_message w now message_text user_id chat_id message_id message_type d =
     (if message_type = ascii ''text'' \<and>
         (message_text = ascii ''/id'' \<or> message_text = ascii ''/start'' \<or>
          message_text = ascii ''/status'' \<or> message_text = ascii ''/test_night'')
      then d
      else if message_type = ascii ''text'' \<and> message_text = ascii ''/force_cleanup'' \<and>
              is_admin w chat_id user_id
      then fst (end_night_mode w chat_id d)
      else if raises w (SelectSettings chat_id) then d
      else case get_chat_settings chat_id d of
        None \<Rightarrow> d
      | Some settings \<Rightarrow>
          if cs_is_night_mode_active settings then
            (if raises w (SelectOpenSession chat_id) then d
             else case get_current_session chat_id d of
               None \<Rightarrow> d
             | Some current_session \<Rightarrow>
                 save_message w now chat_id message_id user_id message_text message_type
                   current_session d)
          else d)"

section \<open>Configuration writes\<close>

definition update_chat_settings ::
  "world \<Rightarrow> int \<Rightarrow> (chat_settings_row \<Rightarrow> chat_settings_row) \<Rightarrow> db \<Rightarrow> db" where
  \<comment> \<open>\<^verbatim>\<open>UPDATE chat_settings SET ... WHERE chat_id = ?\<close> inside \<^verbatim>\<open>try\<close>\<close>
  "update_chat_settings w chat_id f d =
     (if raises w (UpdateSettings chat_id) then d
      else d\<lparr>chat_settings :=
               map (\<lambda>r. if cs_chat_id r = chat_id then f r else r) (chat_settings d)\<rparr>)"

definition enable_night_mode :: "world \<Rightarrow> int \<Rightarrow> db \<Rightarrow> db" where
  "enable_night_mode w chat_id d =
     update_chat_settings w chat_id (\<lambda>r. r\<lparr>cs_night_mode_enabled := True\<rparr>) d"

definition disable_night_mode :: "world \<Rightarrow> int \<Rightarrow> db \<Rightarrow> db" where
  "disable_night_mode w chat_id d =
     update_chat_settings w chat_id (\<lambda>r. r\<lparr>cs_night_mode_enabled := False\<rparr>) d"

definition update_start_time :: "world \<Rightarrow> int \<Rightarrow> pystr \<Rightarrow> db \<Rightarrow> db" where
  "update_start_time w chat_id start_time d =
     update_chat_settings w chat_id (\<lambda>r. r\<lparr>cs_start_time := start_time\<rparr>) d"

definition update_end_time :: "world \<Rightarrow> int \<Rightarrow> pystr \<Rightarrow> db \<Rightarrow> db" where
  "update_end_time w chat_id end_time d =
     update_chat_settings w chat_id (\<lambda>r. r\<lparr>cs_end_time := end_time\<rparr>) d"

definition update_welcome_message :: "world \<Rightarrow> int \<Rightarrow> pystr \<Rightarrow> db \<Rightarrow> db" where
  "update_welcome_message w chat_id message d =
     update_chat_settings w chat_id (\<lambda>r. r\<lparr>cs_welcome_message := message\<rparr>) d"

text \<open>
  \<^verbatim>\<open>is_valid_time\<close>: whether \<^verbatim>\<open>datetime.strptime(time_str, "%H:%M")\<close> succeeds. The
  library matches the text from its start against the hour \<^verbatim>\<open>2[0-3]|[0-1]\d|\d\<close>, a colon
  and the minute \<^verbatim>\<open>[0-5]\d|\d\<close>, alternatives tried in this order, and raises when text
  remains after the match. The bracketed classes are ASCII; \<^verbatim>\<open>\d\<close> is any decimal digit
  of Unicode. As a colon is no digit, the hour is the text before the first colon.
\<close>

definition is_digit :: "world \<Rightarrow> nat \<Rightarrow> bool" where
  "is_digit w c = (48 \<le> c \<and> c \<le> 57 \<or> unicode_decimal w c)"

fun valid_hour :: "world \<Rightarrow> pystr \<Rightarrow> bool" where
  "valid_hour w [a] = is_digit w a"
| "valid_hour w [a, b] =
     ((a = 50 \<and> 48 \<le> b \<and> b \<le> 51) \<or> ((a = 48 \<or> a = 49) \<and> is_digit w b))"
| "valid_hour w _ = False"

fun valid_minute :: "world \<Rightarrow> pystr \<Rightarrow> bool" where
  "valid_minute w [a] = is_digit w a"
| "valid_minute w [a, b] = (48 \<le> a \<and> a \<le> 53 \<and> is_digit w b)"
| "valid_minute w _ = False"

definition is_valid_time :: "world \<Rightarrow> pystr \<Rightarrow> bool" where
  "is_valid_time w time_str =
     (case dropWhile (\<lambda>c. c \<noteq> 58) time_str of
        [] \<Rightarrow> False
      | colon # rest \<Rightarrow>
          valid_hour w (takeWhile (\<lambda>c. c \<noteq> 58) time_str) \<and> valid_minute w rest)"

text \<open>
  The \<^verbatim>\<open>waiting_time_\<close> branch of \<^verbatim>\<open>handle_private_message\<close>. \<open>state\<close> is
  \<^verbatim>\<open>waiting_time_start\<close> or \<^verbatim>\<open>waiting_time_end\<close>; \<open>target_chat_id\<close> is
  \<^verbatim>\<open>self.user_current_chat.get(user_id)\<close>, which is \<^verbatim>\<open>None\<close> when the user has no chat
  selected. \<^verbatim>\<open>if target_chat_id:\<close> is false for \<^verbatim>\<open>None\<close> and for the chat id 0.
\<close>

datatype waiting_time = Waiting_time_start | Waiting_time_end

definition handle_waiting_time ::
  "world \<Rightarrow> waiting_time \<Rightarrow> int option \<Rightarrow> pystr \<Rightarrow> db \<Rightarrow> db" where
  "handle_waiting_time w state target_chat_id message_text d =
     (case target_chat_id of
        None \<Rightarrow> d
      | Some chat_id \<Rightarrow>
          if chat_id = 0 then d
          else if is_valid_time w message_text then
            (case state of
               Waiting_time_start \<Rightarrow> update_start_time w chat_id message_text d
             | Waiting_time_end \<Rightarrow> update_end_time w chat_id message_text d)
          else d)"

text \<open>
  The \<^verbatim>\<open>waiting_chat_id\<close> branch: \<^verbatim>\<open>INSERT OR REPLACE INTO chat_settings (chat_id,
  is_active, added_date)\<close>; every other column takes its default.
\<close>

definition default_welcome_message :: pystr where
  "default_welcome_message =
     [127769, 32, 1053, 1086, 1095, 1085, 1086, 1081, 32, 1088, 1077, 1078, 1080, 1084, 32, 1072,
      1082, 1090, 1080, 1074, 1080, 1088, 1086, 1074, 1072, 1085, 33, 32, 1057, 1086, 1086, 1073,
      1097, 1077, 1085, 1080, 1103, 32, 1073, 1091, 1076, 1091, 1090, 32, 1091, 1076, 1072, 1083,
      1103, 1090, 1100, 1089, 1103, 32, 1074, 32, 1082, 1086, 1085, 1094, 1077, 32, 1087, 1077,
      1088, 1080, 1086, 1076, 1072, 46]"

definition add_chat :: "datetime \<Rightarrow> int \<Rightarrow> db \<Rightarrow> db" where
  "add_chat now target_chat_id d =
     d\<lparr>chat_settings :=
         insort_key cs_chat_id
           \<lparr>cs_chat_id = target_chat_id, cs_chat_title = None, cs_night_mode_enabled = False,
            cs_start_time = ascii ''23:00'', cs_end_time = ascii ''05:00'',
            cs_welcome_message = default_welcome_message, cs_is_active = True,
            cs_added_date = Some (isoformat now), cs_last_notification_date = None,
            cs_is_night_mode_active = False\<rparr>
           (filter (\<lambda>r. cs_chat_id r \<noteq> target_chat_id) (chat_settings d))\<rparr>"

section \<open>The purge report\<close>

text \<open>
  The source keeps one number, \<^verbatim>\<open>deleted_count\<close>. The report of the specification is read
  off the calls a purge made: every \<^verbatim>\<open>delete_message\<close> call is an attempt, a call that
  returned true a deletion, one that returned false a failure.
\<close>

record report =
  attempted :: nat
  deleted :: nat
  failed :: nat

fun is_attempt :: "remote_call \<Rightarrow> bool" where
  "is_attempt (DeleteMessage c m ok) = True"
| "is_attempt (SendMessage c t ok) = False"

fun is_deletion :: "remote_call \<Rightarrow> bool" where
  "is_deletion (DeleteMessage c m ok) = ok"
| "is_deletion (SendMessage c t ok) = False"

fun is_failure :: "remote_call \<Rightarrow> bool" where
  "is_failure (DeleteMessage c m ok) = (\<not> ok)"
| "is_failure (SendMessage c t ok) = False"

definition purge_report :: "remote_call list \<Rightarrow> report" where
  "purge_report calls =
     \<lparr>attempted = length (filter is_attempt calls),
      deleted = length (filter is_deletion calls),
      failed = length (filter is_failure calls)\<rparr>"

text \<open>Reading a decimal rendering back, to see that rendering loses nothing.\<close>

definition digits_value :: "pystr \<Rightarrow> nat" where
  "digits_value s = foldl (\<lambda>a c. 10 * a + (c - 48)) 0 s"

section \<open>Invariants and reachable states\<close>

definition no_faults :: "world \<Rightarrow> bool" where
  "no_faults w = (\<forall>s. \<not> raises w s)"

text \<open>
  Worlds in which the second write of a transition, the UPDATE of \<^verbatim>\<open>chat_settings\<close>, does
  not raise; anything else may.
\<close>

definition atomic_writes :: "world \<Rightarrow> bool" where
  "atomic_writes w = (\<forall>c. \<not> raises w (ActivateChat c) \<and> \<not> raises w (DeactivateChat c))"

definition any_world :: "world \<Rightarrow> bool" where
  "any_world w = True"

text \<open>
  The invariant of the specification: a chat's active flag is set exactly when one row of
  the ledger for that chat is not completed.
\<close>

definition flag_matches_ledger :: "db \<Rightarrow> bool" where
  "flag_matches_ledger d =
     list_all (\<lambda>r. cs_is_night_mode_active r \<longleftrightarrow> length (open_sessions (cs_chat_id r) d) = 1)
       (chat_settings d)"

text \<open>
  What the operations keep true besides: \<^verbatim>\<open>chat_id\<close> is a key of \<^verbatim>\<open>chat_settings\<close>;
  a session id starts with the decimal chat id of its row, up to the first underscore;
  sessions belong to registered chats; and a chat has one open session when its flag is
  set and none otherwise.
\<close>

definition consistent :: "db \<Rightarrow> bool" where
  "consistent d =
     (distinct (map cs_chat_id (chat_settings d)) \<and>
      list_all (\<lambda>s. takeWhile (\<lambda>c. c \<noteq> 95) (ns_session_id s) = str_int (ns_chat_id s))
        (night_sessions d) \<and>
      list_all (\<lambda>s. ns_chat_id s \<in> set (map cs_chat_id (chat_settings d))) (night_sessions d) \<and>
      list_all (\<lambda>r. length (open_sessions (cs_chat_id r) d) =
                      (if cs_is_night_mode_active r then 1 else 0))
        (chat_settings d))"

text \<open>
  The part of consistency that holds whatever raises: the two keys. And the rows of the
  ledger that belong to one chat.
\<close>

definition keyed :: "db \<Rightarrow> bool" where
  "keyed d =
     (distinct (map cs_chat_id (chat_settings d)) \<and>
      list_all (\<lambda>s. takeWhile (\<lambda>c. c \<noteq> 95) (ns_session_id s) = str_int (ns_chat_id s))
        (night_sessions d))"

definition sessions_of :: "int \<Rightarrow> db \<Rightarrow> night_sessions_row list" where
  "sessions_of chat_id d = filter (\<lambda>s. ns_chat_id s = chat_id) (night_sessions d)"

text \<open>
  The states the program reaches from an empty database: a chat is registered, its
  settings are edited, the controller ticks, group messages arrive (among them the forced
  cleanup). \<open>ok\<close> restricts the worlds the steps run in. \<open>again\<close> says whether a chat
  that is already tracked may be registered again, which replaces its row by the defaults
  whatever the ledger holds.
\<close>

inductive reachable :: "(world \<Rightarrow> bool) \<Rightarrow> bool \<Rightarrow> db \<Rightarrow> bool"
  for ok :: "world \<Rightarrow> bool" and again :: bool where
  r_initial: "reachable ok again empty_db"
| r_registered: "reachable ok again d \<Longrightarrow> again \<or> get_chat_settings c d = None \<Longrightarrow>
     reachable ok again (add_chat now c d)"
| r_enabled: "reachable ok again d \<Longrightarrow> ok w \<Longrightarrow> reachable ok again (enable_night_mode w c d)"
| r_disabled: "reachable ok again d \<Longrightarrow> ok w \<Longrightarrow> reachable ok again (disable_night_mode w c d)"
| r_welcome: "reachable ok again d \<Longrightarrow> ok w \<Longrightarrow>
     reachable ok again (update_welcome_message w c t d)"
| r_window: "reachable ok again d \<Longrightarrow> ok w \<Longrightarrow>
     reachable ok again (handle_waiting_time w st c t d)"
| r_tick: "reachable ok again d \<Longrightarrow> ok w \<Longrightarrow>
     reachable ok again (fst (background_time_check_tick w now d))"
| r_group_message: "reachable ok again d \<Longrightarrow> ok w \<Longrightarrow>
     reachable ok again (handle_group_message w now t u c mid ty d)"

section \<open>A small scenario\<close>

text \<open>
  The decimal digits of Unicode 14.0.0 other than 0 to 9 (general category Nd), as ranges
  of code points.
\<close>

definition unicode_14_decimal :: "nat \<Rightarrow> bool" where
  "unicode_14_decimal c =
     list_ex (\<lambda>(lo, hi). lo \<le> c \<and> c \<le> hi)
     [(1632, 1641), (1776, 1785), (1984, 1993), (2406, 2415), (2534, 2543), (2662, 2671),
      (2790, 2799), (2918, 2927), (3046, 3055), (3174, 3183), (3302, 3311), (3430, 3439),
      (3558, 3567), (3664, 3673), (3792, 3801), (3872, 3881), (4160, 4169), (4240, 4249),
      (6112, 6121), (6160, 6169), (6470, 6479), (6608, 6617), (6784, 6793), (6800, 6809),
      (6992, 7001), (7088, 7097), (7232, 7241), (7248, 7257), (42528, 42537), (43216, 43225),
      (43264, 43273), (43472, 43481), (43504, 43513), (43600, 43609), (44016, 44025),
      (65296, 65305), (66720, 66729), (68912, 68921), (69734, 69743), (69872, 69881),
      (69942, 69951), (70096, 70105), (70384, 70393), (70736, 70745), (70864, 70873),
      (71248, 71257), (71360, 71369), (71472, 71481), (71904, 71913), (72016, 72025),
      (72784, 72793), (73040, 73049), (73120, 73129), (92768, 92777), (92864, 92873),
      (93008, 93017), (120782, 120831), (123200, 123209), (123632, 123641), (125264, 125273),
      (130032, 130041)]"

text \<open>
  A world in which every remote call succeeds and no statement raises, a clock for March
  2024, and the state after chat \<open>-1001\<close> was registered, switched on, and reached its
  start time 23:00 on March 2nd.
\<close>

definition quiet_world :: world where
  "quiet_world =
     \<lparr>send_ok = (\<lambda>c t. True), delete_ok = (\<lambda>c m. True), is_admin = (\<lambda>c u. False),
      raises = (\<lambda>s. False), unicode_decimal = unicode_14_decimal\<rparr>"

definition clock :: "nat \<Rightarrow> nat \<Rightarrow> nat \<Rightarrow> datetime" where
  "clock dd hh mm =
     \<lparr>dt_year = 2024, dt_month = 3, dt_day = dd, dt_hour = hh, dt_minute = mm,
      dt_second = 0, dt_microsecond = 0\<rparr>"

definition night_db :: db where
  "night_db =
     fst (background_time_check_tick quiet_world (clock 2 23 0)
       (enable_night_mode quiet_world (- 1001) (add_chat (clock 2 12 0) (- 1001) empty_db)))"

text \<open>
  A world like the quiet one but where deleting message 13 fails, and the night state with
  five captured messages, 11 to 15.
\<close>

definition flaky_world :: world where
  "flaky_world = quiet_world\<lparr>delete_ok := (\<lambda>c m. m \<noteq> 13)\<rparr>"

definition capture :: "int \<Rightarrow> db \<Rightarrow> db" where
  "capture mid d =
     handle_group_message quiet_world (clock 2 23 30) (ascii ''hello'') 7 (- 1001) mid
       (ascii ''text'') d"

definition five_messages_db :: db where
  "five_messages_db = capture 15 (capture 14 (capture 13 (capture 12 (capture 11 night_db))))"

text \<open>
  The same chat with its end time set to its start time, 23:00, before it was switched on
  and the clock reached 23:00.
\<close>

definition degenerate_db :: db where
  "degenerate_db =
     fst (background_time_check_tick quiet_world (clock 2 23 0)
       (enable_night_mode quiet_world (- 1001)
         (handle_waiting_time quiet_world Waiting_time_end (Some (- 1001)) (ascii ''23:00'')
           (add_chat (clock 2 12 0) (- 1001) empty_db))))"

text \<open>
  Two chats, both switched on with the default window 23:00 to 05:00, and the state after
  both opened their sessions; a world in which the INSERT of a session for chat \<open>-1002\<close>
  raises; and a world in which every remote call fails and \<^verbatim>\<open>end_night_mode\<close> for chat
  \<open>-1002\<close> cannot read the ledger.
\<close>

definition two_chats_db :: db where
  "two_chats_db =
     enable_night_mode quiet_world (- 1001)
       (enable_night_mode quiet_world (- 1002)
         (add_chat (clock 2 12 0) (- 1001) (add_chat (clock 2 12 0) (- 1002) empty_db)))"

definition two_nights_db :: db where
  "two_nights_db = fst (background_time_check_tick quiet_world (clock 2 23 0) two_chats_db)"

definition broken_world :: world where
  "broken_world = quiet_world\<lparr>raises := (\<lambda>s. s = InsertSession (- 1002))\<rparr>"

definition failing_world :: world where
  "failing_world =
     \<lparr>send_ok = (\<lambda>c t. False), delete_ok = (\<lambda>c m. False), is_admin = (\<lambda>c u. False),
      raises = (\<lambda>s. s = SelectOpenSession (- 1002)), unicode_decimal = unicode_14_decimal\<rparr>"

text \<open>
  A world in which the UPDATE that sets the flag of chat \<open>-1001\<close> raises.
\<close>

definition half_open_world :: world where
  "half_open_world = quiet_world\<lparr>raises := (\<lambda>s. s = ActivateChat (- 1001))\<rparr>"

text \<open>
  A world in which the UPDATE that completes a session of chat \<open>-1001\<close> raises. And the
  state in which chat \<open>-1001\<close> has two open sessions: its open transition of March 2nd lost
  the UPDATE of the flag, and the chat opened again on March 3rd.
\<close>

definition stuck_world :: world where
  "stuck_world = quiet_world\<lparr>raises := (\<lambda>s. s = CompleteSession (- 1001))\<rparr>"

definition two_open_db :: db where
  "two_open_db =
     fst (background_time_check_tick quiet_world (clock 3 23 0)
       (fst (background_time_check_tick half_open_world (clock 2 23 0)
         (enable_night_mode quiet_world (- 1001) (add_chat (clock 2 12 0) (- 1001) empty_db)))))"

text \<open>
  Chat \<open>-1001\<close> with the end time written as \<^verbatim>\<open>5:00\<close>, switched on, after the clock
  reached its start time 23:00 on March 2nd.
\<close>

definition short_end_db :: db where
  "short_end_db =
     fst (background_time_check_tick quiet_world (clock 2 23 0)
       (enable_night_mode quiet_world (- 1001)
         (handle_waiting_time quiet_world Waiting_time_end (Some (- 1001)) (ascii ''5:00'')
           (add_chat (clock 2 12 0) (- 1001) empty_db))))"

section \<open>The retention store is never shortened\<close>

lemma saved_messages_complete_session [simp]:
  "saved_messages (complete_session sid n d) = saved_messages d"
  by (simp add: complete_session_def)

lemma saved_messages_deactivate_chat [simp]:
  "saved_messages (deactivate_chat c d) = saved_messages d"
  by (simp add: deactivate_chat_def)

lemma saved_messages_activate_chat [simp]:
  "saved_messages (activate_chat c date d) = saved_messages d"
  by (simp add: activate_chat_def)

lemma saved_messages_insert_or_replace_session [simp]:
  "saved_messages (insert_or_replace_session row d) = saved_messages d"
  by (simp add: insert_or_replace_session_def)

lemma saved_messages_end_night_mode:
  "saved_messages (fst (end_night_mode w c d)) = saved_messages d"
  by (simp add: end_night_mode_def Let_def split: option.splits)

lemma saved_messages_chat:
  "saved_messages (fst (snd (background_time_check_chat w now row d))) = saved_messages d"
  by (simp add: background_time_check_chat_def Let_def saved_messages_end_night_mode
      split: prod.splits)

lemma saved_messages_chats:
  "saved_messages (fst (snd (background_time_check_chats w now rows d))) = saved_messages d"
proof (induction rows arbitrary: d)
  case Nil
  show ?case by simp
next
  case (Cons row rows)
  obtain e d' calls where b: "background_time_check_chat w now row d = (e, d', calls)"
    by (cases "background_time_check_chat w now row d")
  have d': "saved_messages d' = saved_messages d"
    using saved_messages_chat [of w now row d] b by simp
  show ?case
  proof (cases e)
    case None
    obtain e2 d2 calls2 where r: "background_time_check_chats w now rows d' = (e2, d2, calls2)"
      by (cases "background_time_check_chats w now rows d'")
    have "saved_messages d2 = saved_messages d'"
      using Cons.IH [of d'] r by simp
    with None b r d' show ?thesis by simp
  next
    case (Some x)
    with b d' show ?thesis by simp
  qed
qed

lemma saved_messages_tick:
  "saved_messages (fst (background_time_check_tick w now d)) = saved_messages d"
proof (cases "raises w SelectEnabledChats")
  case True
  then show ?thesis by (simp add: background_time_check_tick_def)
next
  case False
  obtain e d' calls where r:
    "background_time_check_chats w now (select_enabled_chats d) d = (e, d', calls)"
    by (cases "background_time_check_chats w now (select_enabled_chats d) d")
  have "saved_messages d' = saved_messages d"
    using saved_messages_chats [of w now "select_enabled_chats d" d] r by simp
  with False r show ?thesis by (simp add: background_time_check_tick_def)
qed

lemma saved_messages_run:
  "saved_messages (fst (background_time_check ticks d)) = saved_messages d"
proof (induction ticks arbitrary: d)
  case Nil
  show ?case by simp
next
  case (Cons t ticks)
  obtain w now where t: "t = (w, now)" by (cases t)
  obtain d' calls where r: "background_time_check_tick w now d = (d', calls)"
    by (cases "background_time_check_tick w now d")
  have d': "saved_messages d' = saved_messages d"
    using saved_messages_tick [of w now d] r by simp
  obtain d2 calls2 where r2: "background_time_check ticks d' = (d2, calls2)"
    by (cases "background_time_check ticks d'")
  have "saved_messages d2 = saved_messages d'"
    using Cons.IH [of d'] r2 by simp
  with t r r2 d' show ?case by simp
qed

lemma saved_messages_update_chat_settings [simp]:
  "saved_messages (update_chat_settings w c f d) = saved_messages d"
  by (simp add: update_chat_settings_def)

lemma saved_messages_add_chat [simp]:
  "saved_messages (add_chat now c d) = saved_messages d"
  by (simp add: add_chat_def)

lemma saved_messages_save_message:
  "saved_messages (save_message w now c mid u t ty s d) = saved_messages d \<or>
   (\<exists>m. saved_messages (save_message w now c mid u t ty s d) = saved_messages d @ [m] \<and>
        sm_message_text m = take 500 t \<and> sm_chat_id m = c \<and> sm_night_mode_session m = s \<and>
        sm_message_id m = mid)"
  by (simp add: save_message_def)

lemma saved_messages_handle_group_message:
  "saved_messages (handle_group_message w now t u c mid ty d) = saved_messages d \<or>
   (\<exists>m. saved_messages (handle_group_message w now t u c mid ty d) = saved_messages d @ [m] \<and>
        sm_message_text m = take 500 t)"
  using saved_messages_save_message [of w now c mid u t ty _ d]
  by (auto simp: handle_group_message_def saved_messages_end_night_mode split: option.splits)

text \<open>
  Claim C10. No operation removes a row of \<^verbatim>\<open>saved_messages\<close>: the close transition, a
  tick and a whole run of the controller leave the table as it is, a group message appends
  at most one row, and the configuration writes do not touch it. After a purge every
  captured row of the session is therefore still stored.
\<close>

theorem retention_store_only_grows:
  "saved_messages (fst (end_night_mode w c d)) = saved_messages d \<and>
   saved_messages (fst (background_time_check_tick w now d)) = saved_messages d \<and>
   saved_messages (fst (background_time_check ticks d)) = saved_messages d \<and>
   (\<exists>new. saved_messages (handle_group_message w now t u c mid ty d) = saved_messages d @ new) \<and>
   (\<exists>new. saved_messages (save_message w now c mid u t ty s d) = saved_messages d @ new) \<and>
   saved_messages (handle_waiting_time w st target t d) = saved_messages d \<and>
   saved_messages (enable_night_mode w c d) = saved_messages d \<and>
   saved_messages (disable_night_mode w c d) = saved_messages d \<and>
   saved_messages (update_welcome_message w c t d) = saved_messages d \<and>
   saved_messages (add_chat now c d) = saved_messages d"
proof -
  have g: "\<exists>new. saved_messages (handle_group_message w now t u c mid ty d) = saved_messages d @ new"
    using saved_messages_handle_group_message [of w now t u c mid ty d] by auto
  have s: "\<exists>new. saved_messages (save_message w now c mid u t ty s d) = saved_messages d @ new"
    using saved_messages_save_message [of w now c mid u t ty s d] by auto
  have h: "saved_messages (handle_waiting_time w st target t d) = saved_messages d"
    by (simp add: handle_waiting_time_def update_start_time_def update_end_time_def
        split: waiting_time.splits option.splits)
  show ?thesis
    using g s h
    by (simp add: saved_messages_end_night_mode saved_messages_tick saved_messages_run
        enable_night_mode_def disable_night_mode_def update_welcome_message_def)
qed

section \<open>Evaluating the scenario\<close>

lemma no_faults_quiet_world: "no_faults quiet_world"
  by (simp add: no_faults_def quiet_world_def)

lemma reachable_night_db: "ok quiet_world \<Longrightarrow> reachable ok again night_db"
  unfolding night_db_def
  by (intro reachable.r_tick reachable.r_enabled reachable.r_registered reachable.r_initial)
     (simp_all add: get_chat_settings_def empty_db_def)

lemma strftime_HM_23: "strftime_HM (clock 2 23 0) = [50, 51, 58, 48, 48]"
  by (simp add: strftime_HM_def clock_def zfill_def ascii_def str_nat.simps)

lemma strftime_HM_23_next: "strftime_HM (clock 3 23 0) = [50, 51, 58, 48, 48]"
  by (simp add: strftime_HM_def clock_def zfill_def ascii_def str_nat.simps)

lemma strftime_Ymd_HM_23:
  "strftime_Ymd_HM (clock 2 23 0) = [50, 48, 50, 52, 48, 51, 48, 50, 95, 50, 51, 48, 48]"
  by (simp add: strftime_Ymd_HM_def clock_def zfill_def ascii_def str_nat.simps)

lemma str_int_1001: "str_int (- 1001) = [45, 49, 48, 48, 49]"
  by (simp add: str_int_def str_nat.simps)

lemma night_db_eval:
  "night_db =
    \<lparr>chat_settings =
       [\<lparr>cs_chat_id = - 1001, cs_chat_title = None, cs_night_mode_enabled = True,
         cs_start_time = ascii ''23:00'', cs_end_time = ascii ''05:00'',
         cs_welcome_message = default_welcome_message, cs_is_active = True,
         cs_added_date = Some (isoformat (clock 2 12 0)),
         cs_last_notification_date = Some (strftime_Ymd (clock 2 23 0)),
         cs_is_night_mode_active = True\<rparr>],
     night_sessions =
       [\<lparr>ns_session_id = ascii ''-1001_20240302_2300'', ns_chat_id = - 1001,
         ns_start_time = isoformat (clock 2 23 0), ns_end_time = ascii ''05:00'',
         ns_message_count = 0, ns_is_completed = False\<rparr>],
     saved_messages = []\<rparr>"
  by (simp add: night_db_def quiet_world_def background_time_check_tick_def
      background_time_check_chat_def select_enabled_chats_def enable_night_mode_def
      update_chat_settings_def add_chat_def empty_db_def insert_or_replace_session_def
      activate_chat_def send_message_def Let_def strftime_HM_23 strftime_Ymd_HM_23 str_int_1001
      ascii_def)

section \<open>The stored text is cut at 500 characters\<close>

lemma text_bounded_handle_group_message:
  "list_all (\<lambda>m. length (sm_message_text m) \<le> 500) (saved_messages d) \<Longrightarrow>
   list_all (\<lambda>m. length (sm_message_text m) \<le> 500)
     (saved_messages (handle_group_message w now t u c mid ty d))"
  using saved_messages_handle_group_message [of w now t u c mid ty d]
  by auto

text \<open>
  Claim C9. In every state the program reaches, whatever raises or fails in its steps and
  whether or not chats are registered again, each row
  of \<^verbatim>\<open>saved_messages\<close> holds a text of at most 500 characters: the only insertion is
  \<^verbatim>\<open>save_message\<close>, which stores \<^verbatim>\<open>message_text[:500]\<close>.
\<close>

theorem stored_message_text_bounded:
  "reachable ok again d \<Longrightarrow> list_all (\<lambda>m. length (sm_message_text m) \<le> 500) (saved_messages d)"
proof (induction rule: reachable.induct)
  case r_initial
  show ?case by (simp add: empty_db_def)
next
  case (r_window d w st c t)
  then show ?case
    by (simp add: handle_waiting_time_def update_start_time_def update_end_time_def
        split: waiting_time.splits option.splits)
next
  case (r_tick d w now)
  then show ?case by (simp add: saved_messages_tick)
next
  case (r_group_message d w now t u c mid ty)
  then show ?case by (simp add: text_bounded_handle_group_message)
qed (simp_all add: enable_night_mode_def disable_night_mode_def update_welcome_message_def)

theorem stored_message_text_bounded_witness:
  "map (\<lambda>m. length (sm_message_text m))
     (saved_messages (handle_group_message quiet_world (clock 2 23 30) (replicate 600 1078) 7
        (- 1001) 42 (ascii ''text'') night_db)) = [500] \<and>
   list_all (\<lambda>m. length (sm_message_text m) \<le> 500)
     (saved_messages (handle_group_message quiet_world (clock 2 23 30) (replicate 600 1078) 7
        (- 1001) 42 (ascii ''text'') night_db))"
proof -
  have ne: "\<And>s. length s < 600 \<Longrightarrow> replicate 600 (1078::nat) \<noteq> s"
    by (metis length_replicate less_irrefl)
  have stored: "map (\<lambda>m. length (sm_message_text m))
     (saved_messages (handle_group_message quiet_world (clock 2 23 30) (replicate 600 1078) 7
        (- 1001) 42 (ascii ''text'') night_db)) = [500]"
    by (simp add: handle_group_message_def night_db_eval get_chat_settings_def
        get_current_session_def select_open_session_def open_sessions_def save_message_def
        quiet_world_def ne ascii_def)
  have "reachable any_world True night_db"
    by (rule reachable_night_db) (simp add: any_world_def)
  then have "reachable any_world True
     (handle_group_message quiet_world (clock 2 23 30) (replicate 600 1078) 7
        (- 1001) 42 (ascii ''text'') night_db)"
    by (rule reachable.r_group_message) (simp add: any_world_def)
  from stored_message_text_bounded [OF this] stored show ?thesis by simp
qed

section \<open>Decimal rendering is injective\<close>

lemma str_nat_digits: "x \<in> set (str_nat n) \<Longrightarrow> 48 \<le> x \<and> x \<le> 57"
proof (induction n arbitrary: x rule: str_nat.induct)
  case (1 n)
  show ?case
  proof (cases "n < 10")
    case True
    with "1.prems" show ?thesis by (simp add: str_nat.simps [of n])
  next
    case False
    with "1.prems" have "x \<in> set (str_nat (n div 10)) \<or> x = 48 + n mod 10"
      by (auto simp: str_nat.simps [of n])
    then show ?thesis
    proof
      assume "x \<in> set (str_nat (n div 10))"
      with False show ?thesis using "1.IH" by blast
    next
      assume "x = 48 + n mod 10"
      moreover have "n mod 10 < 10" by simp
      ultimately show ?thesis by linarith
    qed
  qed
qed

lemma digits_value_str_nat: "digits_value (str_nat n) = n"
proof (induction n rule: str_nat.induct)
  case (1 n)
  show ?case
  proof (cases "n < 10")
    case True
    then show ?thesis by (simp add: str_nat.simps [of n] digits_value_def)
  next
    case False
    with 1 have "digits_value (str_nat (n div 10)) = n div 10" by simp
    with False show ?thesis
      by (simp add: str_nat.simps [of n] digits_value_def)
  qed
qed

lemma str_nat_inj: "str_nat a = str_nat b \<Longrightarrow> a = b"
  by (metis digits_value_str_nat)

lemma str_nat_no_minus: "str_nat n \<noteq> 45 # s"
proof
  assume "str_nat n = 45 # s"
  then have "45 \<in> set (str_nat n)" by simp
  then show False using str_nat_digits by fastforce
qed

lemma str_int_inj: "str_int a = str_int b \<Longrightarrow> a = b"
proof (cases "a < 0"; cases "b < 0")
  assume "str_int a = str_int b" "a < 0" "b < 0"
  then have "nat (- a) = nat (- b)" by (simp add: str_int_def str_nat_inj)
  with \<open>a < 0\<close> \<open>b < 0\<close> show ?thesis by simp
next
  assume "str_int a = str_int b" "a < 0" "\<not> b < 0"
  then show ?thesis using str_nat_no_minus [of "nat b" "str_nat (nat (- a))"] by (simp add: str_int_def)
next
  assume "str_int a = str_int b" "\<not> a < 0" "b < 0"
  then show ?thesis using str_nat_no_minus [of "nat a" "str_nat (nat (- b))"] by (simp add: str_int_def)
next
  assume "str_int a = str_int b" "\<not> a < 0" "\<not> b < 0"
  then have "nat a = nat b" by (simp add: str_int_def str_nat_inj)
  with \<open>\<not> a < 0\<close> \<open>\<not> b < 0\<close> show ?thesis by simp
qed

lemma str_int_no_underscore: "95 \<notin> set (str_int i)"
proof
  assume "95 \<in> set (str_int i)"
  then have "95 \<in> set (str_nat (nat (- i))) \<or> 95 \<in> set (str_nat (nat i))"
    by (simp add: str_int_def split: if_splits)
  then show False using str_nat_digits [of 95] by auto
qed

lemma session_id_prefix:
  "takeWhile (\<lambda>c. c \<noteq> 95) (str_int i @ ascii ''_'' @ stamp) = str_int i"
proof -
  have "\<forall>x \<in> set (str_int i). x \<noteq> 95"
    using str_int_no_underscore [of i] by auto
  then show ?thesis
    by (simp add: takeWhile_append2 ascii_def)
qed

section \<open>The flag and the ledger agree\<close>

subsection \<open>What each statement does to the tables\<close>

lemma insert_or_replace_session_fields [simp]:
  "chat_settings (insert_or_replace_session row d) = chat_settings d"
  "night_sessions (insert_or_replace_session row d) =
     filter (\<lambda>s. ns_session_id s \<noteq> ns_session_id row) (night_sessions d) @ [row]"
  by (simp_all add: insert_or_replace_session_def)

lemma activate_chat_fields [simp]:
  "night_sessions (activate_chat c date d) = night_sessions d"
  "map cs_chat_id (chat_settings (activate_chat c date d)) = map cs_chat_id (chat_settings d)"
  by (simp_all add: activate_chat_def comp_def)

lemma deactivate_chat_fields [simp]:
  "night_sessions (deactivate_chat c d) = night_sessions d"
  "map cs_chat_id (chat_settings (deactivate_chat c d)) = map cs_chat_id (chat_settings d)"
  by (simp_all add: deactivate_chat_def comp_def)

lemma complete_session_fields [simp]:
  "chat_settings (complete_session sid n d) = chat_settings d"
  "map ns_session_id (night_sessions (complete_session sid n d)) = map ns_session_id (night_sessions d)"
  "map ns_chat_id (night_sessions (complete_session sid n d)) = map ns_chat_id (night_sessions d)"
  by (simp_all add: complete_session_def comp_def)

lemma open_sessions_cong:
  "night_sessions d' = night_sessions d \<Longrightarrow> open_sessions c d' = open_sessions c d"
  by (simp add: open_sessions_def)

lemma open_sessions_complete_session:
  "open_sessions c (complete_session sid n d) =
     filter (\<lambda>s. ns_session_id s \<noteq> sid) (open_sessions c d)"
proof -
  have "filter (\<lambda>s. ns_chat_id s = c \<and> \<not> ns_is_completed s)
          (map (\<lambda>s. if ns_session_id s = sid
                     then s\<lparr>ns_is_completed := True, ns_message_count := n\<rparr> else s) xs) =
        filter (\<lambda>s. ns_session_id s \<noteq> sid)
          (filter (\<lambda>s. ns_chat_id s = c \<and> \<not> ns_is_completed s) xs)" for xs
    by (induction xs) auto
  then show ?thesis by (simp add: open_sessions_def complete_session_def)
qed

lemma open_sessions_insert_or_replace_session:
  "open_sessions c (insert_or_replace_session row d) =
     filter (\<lambda>s. ns_session_id s \<noteq> ns_session_id row) (open_sessions c d) @
     (if ns_chat_id row = c \<and> \<not> ns_is_completed row then [row] else [])"
  by (auto simp: open_sessions_def intro: filter_cong)

lemma find_map_key:
  assumes "\<And>r. key (f r) = key r"
  shows "find (\<lambda>r. key r = c) (map (\<lambda>r. if key r = c' then f r else r) xs) =
         map_option (\<lambda>r. if key r = c' then f r else r) (find (\<lambda>r. key r = c) xs)"
  using assms by (induction xs) auto

lemma get_chat_settings_activate_chat:
  "get_chat_settings c (activate_chat c' date d) =
     map_option (\<lambda>r. if cs_chat_id r = c'
        then r\<lparr>cs_is_night_mode_active := True, cs_last_notification_date := Some date\<rparr> else r)
       (get_chat_settings c d)"
  unfolding get_chat_settings_def activate_chat_def
  by (simp add: find_map_key [where key = cs_chat_id])

lemma get_chat_settings_deactivate_chat:
  "get_chat_settings c (deactivate_chat c' d) =
     map_option (\<lambda>r. if cs_chat_id r = c' then r\<lparr>cs_is_night_mode_active := False\<rparr> else r)
       (get_chat_settings c d)"
  unfolding get_chat_settings_def deactivate_chat_def
  by (simp add: find_map_key [where key = cs_chat_id])

lemma get_chat_settings_cong:
  "chat_settings d' = chat_settings d \<Longrightarrow> get_chat_settings c d' = get_chat_settings c d"
  by (simp add: get_chat_settings_def)

lemma get_chat_settings_Some:
  "get_chat_settings c d = Some r \<Longrightarrow> r \<in> set (chat_settings d) \<and> cs_chat_id r = c"
  by (auto simp: get_chat_settings_def find_Some_iff)

lemma get_chat_settings_None:
  "get_chat_settings c d = None \<longleftrightarrow> c \<notin> set (map cs_chat_id (chat_settings d))"
  by (auto simp: get_chat_settings_def find_None_iff)

lemma find_distinct_key:
  "distinct (map key xs) \<Longrightarrow> r \<in> set xs \<Longrightarrow> find (\<lambda>x. key x = key r) xs = Some r"
  by (induction xs) (auto simp: rev_image_eqI)

lemma latest_session_mem: "latest_session xs = Some s \<Longrightarrow> s \<in> set xs"
  by (induction xs arbitrary: s) (auto split: option.splits if_splits)

lemma latest_session_None: "latest_session xs = None \<longleftrightarrow> xs = []"
  by (cases xs) (auto split: option.splits)

lemma select_open_session_Some:
  "select_open_session c d = Some sid \<Longrightarrow>
   \<exists>s \<in> set (open_sessions c d). ns_session_id s = sid"
  by (auto simp: select_open_session_def dest: latest_session_mem)

lemma select_open_session_None:
  "select_open_session c d = None \<longleftrightarrow> open_sessions c d = []"
  by (simp add: select_open_session_def latest_session_None)

subsection \<open>\<^verbatim>\<open>end_night_mode\<close> when no statement raises\<close>

lemma end_night_mode_no_faults:
  assumes "no_faults w"
  shows "end_night_mode w c d =
    (case select_open_session c d of
       None \<Rightarrow> (d, [])
     | Some sid \<Rightarrow>
         (deactivate_chat c
            (complete_session sid (fst (delete_loop w c (select_messages c sid d) 0 [])) d),
          snd (delete_loop w c (select_messages c sid d) 0 []) @
          (case get_chat_settings c d of
             None \<Rightarrow> []
           | Some settings \<Rightarrow>
               [send_message w c
                  (CleanupReport (fst (delete_loop w c (select_messages c sid d) 0 []))
                     (cs_start_time settings) (cs_end_time settings))])))"
  using assms by (simp add: end_night_mode_def no_faults_def Let_def split: option.splits)

subsection \<open>The operations keep the state consistent\<close>

lemma consistentD:
  assumes "consistent d"
  shows "distinct (map cs_chat_id (chat_settings d))"
    and "\<And>s. s \<in> set (night_sessions d) \<Longrightarrow>
           takeWhile (\<lambda>c. c \<noteq> 95) (ns_session_id s) = str_int (ns_chat_id s)"
    and "\<And>s. s \<in> set (night_sessions d) \<Longrightarrow> ns_chat_id s \<in> cs_chat_id ` set (chat_settings d)"
    and "\<And>r. r \<in> set (chat_settings d) \<Longrightarrow>
           length (open_sessions (cs_chat_id r) d) = (if cs_is_night_mode_active r then 1 else 0)"
  using assms by (auto simp: consistent_def list_all_iff)

lemma consistentI:
  assumes "distinct (map cs_chat_id (chat_settings d))"
    and "\<And>s. s \<in> set (night_sessions d) \<Longrightarrow>
           takeWhile (\<lambda>c. c \<noteq> 95) (ns_session_id s) = str_int (ns_chat_id s)"
    and "\<And>s. s \<in> set (night_sessions d) \<Longrightarrow> ns_chat_id s \<in> cs_chat_id ` set (chat_settings d)"
    and "\<And>r. r \<in> set (chat_settings d) \<Longrightarrow>
           length (open_sessions (cs_chat_id r) d) = (if cs_is_night_mode_active r then 1 else 0)"
  shows "consistent d"
  using assms by (auto simp: consistent_def list_all_iff)

lemma open_sessions_mem:
  "s \<in> set (open_sessions c d) \<longleftrightarrow>
   s \<in> set (night_sessions d) \<and> ns_chat_id s = c \<and> \<not> ns_is_completed s"
  by (auto simp: open_sessions_def)

text \<open>In a consistent state a session id belongs to one chat.\<close>

lemma session_id_chat:
  assumes "consistent d" and "s \<in> set (night_sessions d)"
    and "takeWhile (\<lambda>c. c \<noteq> 95) (ns_session_id s) = str_int c"
  shows "ns_chat_id s = c"
  using consistentD(2) [OF assms(1,2)] assms(3) by (simp add: str_int_inj)

lemma open_sessions_other_chat:
  assumes "consistent d" and "takeWhile (\<lambda>c. c \<noteq> 95) sid = str_int c" and "c' \<noteq> c"
  shows "filter (\<lambda>s. ns_session_id s \<noteq> sid) (open_sessions c' d) = open_sessions c' d"
proof -
  have "ns_session_id s \<noteq> sid" if "s \<in> set (open_sessions c' d)" for s
  proof
    assume "ns_session_id s = sid"
    with that assms(1,2) have "ns_chat_id s = c"
      by (auto simp: open_sessions_mem intro: session_id_chat)
    with that assms(3) show False by (simp add: open_sessions_mem)
  qed
  then show ?thesis by (simp add: filter_id_conv)
qed

lemma consistent_empty_db: "consistent empty_db"
  by (simp add: consistent_def empty_db_def)

lemma consistent_cong:
  "chat_settings d' = chat_settings d \<Longrightarrow> night_sessions d' = night_sessions d \<Longrightarrow>
   consistent d' = consistent d"
  by (simp add: consistent_def open_sessions_def)

lemma consistent_update_chat_settings:
  assumes "consistent d"
    and "\<And>r. cs_chat_id (f r) = cs_chat_id r"
    and "\<And>r. cs_is_night_mode_active (f r) = cs_is_night_mode_active r"
  shows "consistent (update_chat_settings w c f d)"
proof (cases "raises w (UpdateSettings c)")
  case True
  with assms(1) show ?thesis by (simp add: update_chat_settings_def)
next
  case False
  let ?g = "\<lambda>r. if cs_chat_id r = c then f r else r"
  let ?d = "d\<lparr>chat_settings := map ?g (chat_settings d)\<rparr>"
  have ids: "map cs_chat_id (map ?g (chat_settings d)) = map cs_chat_id (chat_settings d)"
    by (simp add: assms(2) comp_def)
  have os: "open_sessions c' ?d = open_sessions c' d" for c'
    by (simp add: open_sessions_def)
  have "consistent ?d"
  proof (rule consistentI)
    have "distinct (map cs_chat_id (map ?g (chat_settings d)))"
      using consistentD(1) [OF assms(1)] by (simp only: ids)
    then show "distinct (map cs_chat_id (chat_settings ?d))" by simp
  next
    fix s assume "s \<in> set (night_sessions ?d)"
    then show "takeWhile (\<lambda>c. c \<noteq> 95) (ns_session_id s) = str_int (ns_chat_id s)"
      using consistentD(2) [OF assms(1)] by simp
  next
    fix s assume "s \<in> set (night_sessions ?d)"
    then have "ns_chat_id s \<in> cs_chat_id ` set (chat_settings d)"
      using consistentD(3) [OF assms(1)] by simp
    moreover have "chat_settings ?d = map ?g (chat_settings d)" by simp
    then have "cs_chat_id ` set (chat_settings ?d) = cs_chat_id ` set (chat_settings d)"
      by (metis ids set_map)
    ultimately show "ns_chat_id s \<in> cs_chat_id ` set (chat_settings ?d)" by simp
  next
    fix r assume "r \<in> set (chat_settings ?d)"
    then obtain r0 where r0: "r0 \<in> set (chat_settings d)" "r = ?g r0" by auto
    have "cs_chat_id r = cs_chat_id r0" "cs_is_night_mode_active r = cs_is_night_mode_active r0"
      using r0(2) assms(2,3) by auto
    with consistentD(4) [OF assms(1) r0(1)] os
    show "length (open_sessions (cs_chat_id r) ?d) = (if cs_is_night_mode_active r then 1 else 0)"
      by simp
  qed
  with False show ?thesis by (simp add: update_chat_settings_def)
qed

lemma consistent_add_chat:
  assumes "consistent d" and "get_chat_settings c d = None"
  shows "consistent (add_chat now c d)"
proof -
  have new: "c \<notin> cs_chat_id ` set (chat_settings d)"
    using assms(2) by (simp add: get_chat_settings_None)
  then have keep: "filter (\<lambda>r. cs_chat_id r \<noteq> c) (chat_settings d) = chat_settings d"
    by (auto simp: filter_id_conv)
  have os: "open_sessions c' (add_chat now c d) = open_sessions c' d" for c'
    by (simp add: open_sessions_def add_chat_def)
  have none: "open_sessions c d = []"
    using consistentD(3) [OF assms(1)] new by (auto simp: open_sessions_def filter_empty_conv)
  show ?thesis
  proof (rule consistentI)
    show "distinct (map cs_chat_id (chat_settings (add_chat now c d)))"
      using consistentD(1) [OF assms(1)] new by (simp add: add_chat_def keep distinct_insort_key)
  next
    fix s assume "s \<in> set (night_sessions (add_chat now c d))"
    then show "takeWhile (\<lambda>c. c \<noteq> 95) (ns_session_id s) = str_int (ns_chat_id s)"
      using consistentD(2) [OF assms(1)] by (simp add: add_chat_def)
  next
    fix s assume "s \<in> set (night_sessions (add_chat now c d))"
    then show "ns_chat_id s \<in> cs_chat_id ` set (chat_settings (add_chat now c d))"
      using consistentD(3) [OF assms(1), of s] by (auto simp: add_chat_def keep set_insort_key)
  next
    fix r assume "r \<in> set (chat_settings (add_chat now c d))"
    then have "r \<in> set (chat_settings d) \<or> (cs_chat_id r = c \<and> \<not> cs_is_night_mode_active r)"
      by (auto simp: add_chat_def keep set_insort_key)
    then show "length (open_sessions (cs_chat_id r) (add_chat now c d)) =
        (if cs_is_night_mode_active r then 1 else 0)"
    proof
      assume "r \<in> set (chat_settings d)"
      then show ?thesis using consistentD(4) [OF assms(1), of r] by (simp add: os)
    next
      assume "cs_chat_id r = c \<and> \<not> cs_is_night_mode_active r"
      then show ?thesis using none by (simp add: os)
    qed
  qed
qed

lemma consistent_save_message:
  "consistent (save_message w now c mid u t ty s d) = consistent d"
  by (rule consistent_cong) (simp_all add: save_message_def)

lemma chat_ids_image:
  "map cs_chat_id (chat_settings d') = map cs_chat_id (chat_settings d) \<Longrightarrow>
   cs_chat_id ` set (chat_settings d') = cs_chat_id ` set (chat_settings d)"
  by (metis set_map)

lemma consistent_open:
  assumes con: "consistent d" and row: "get_chat_settings c d = Some r"
    and idle: "\<not> cs_is_night_mode_active r"
  shows "consistent (activate_chat c date
     (insert_or_replace_session
        \<lparr>ns_session_id = str_int c @ ascii ''_'' @ stamp, ns_chat_id = c, ns_start_time = st,
         ns_end_time = e, ns_message_count = 0, ns_is_completed = False\<rparr> d))"
    (is "consistent (activate_chat c date (insert_or_replace_session ?new d))")
proof -
  let ?d1 = "insert_or_replace_session ?new d"
  let ?d2 = "activate_chat c date ?d1"
  have r: "r \<in> set (chat_settings d)" "cs_chat_id r = c"
    using get_chat_settings_Some [OF row] by simp_all
  have none: "open_sessions c d = []"
    using consistentD(4) [OF con r(1)] r(2) idle by simp
  have prefix: "takeWhile (\<lambda>c. c \<noteq> 95) (ns_session_id ?new) = str_int c"
    by (simp add: session_id_prefix)
  have os: "open_sessions c' ?d2 =
      filter (\<lambda>s. ns_session_id s \<noteq> ns_session_id ?new) (open_sessions c' d) @
      (if c = c' then [?new] else [])" for c'
    by (simp add: open_sessions_cong [of ?d2 ?d1] open_sessions_insert_or_replace_session)
  have img: "cs_chat_id ` set (chat_settings ?d2) = cs_chat_id ` set (chat_settings d)"
    by (rule chat_ids_image) simp
  show ?thesis
  proof (rule consistentI)
    show "distinct (map cs_chat_id (chat_settings ?d2))"
      using consistentD(1) [OF con] by simp
  next
    fix s assume "s \<in> set (night_sessions ?d2)"
    then have "s \<in> set (night_sessions d) \<or> s = ?new" by auto
    then show "takeWhile (\<lambda>c. c \<noteq> 95) (ns_session_id s) = str_int (ns_chat_id s)"
      using consistentD(2) [OF con, of s] prefix by auto
  next
    fix s assume "s \<in> set (night_sessions ?d2)"
    then have "s \<in> set (night_sessions d) \<or> s = ?new" by auto
    then have "ns_chat_id s \<in> cs_chat_id ` set (chat_settings d)"
      using consistentD(3) [OF con, of s] r by auto
    then show "ns_chat_id s \<in> cs_chat_id ` set (chat_settings ?d2)"
      by (simp only: img)
  next
    fix r' assume "r' \<in> set (chat_settings ?d2)"
    then obtain r0 where r0: "r0 \<in> set (chat_settings d)"
      "r' = (if cs_chat_id r0 = c
             then r0\<lparr>cs_is_night_mode_active := True, cs_last_notification_date := Some date\<rparr>
             else r0)"
      by (auto simp: activate_chat_def)
    show "length (open_sessions (cs_chat_id r') ?d2) =
        (if cs_is_night_mode_active r' then 1 else 0)"
    proof (cases "cs_chat_id r0 = c")
      case True
      with r0(2) have "cs_chat_id r' = c" "cs_is_night_mode_active r'" by simp_all
      then show ?thesis by (simp only: os none) simp
    next
      case False
      with r0(2) have r': "r' = r0" by simp
      have "filter (\<lambda>s. ns_session_id s \<noteq> ns_session_id ?new) (open_sessions (cs_chat_id r0) d) =
          open_sessions (cs_chat_id r0) d"
        using con prefix False by (rule open_sessions_other_chat)
      with False consistentD(4) [OF con r0(1)] show ?thesis
        by (simp only: os r') auto
    qed
  qed
qed

lemma consistent_close:
  assumes con: "consistent d" and sel: "select_open_session c d = Some sid"
  shows "consistent (deactivate_chat c (complete_session sid n d))"
proof -
  let ?d1 = "complete_session sid n d"
  let ?d2 = "deactivate_chat c ?d1"
  obtain s where s: "s \<in> set (open_sessions c d)" "ns_session_id s = sid"
    using select_open_session_Some [OF sel] by auto
  then have s': "s \<in> set (night_sessions d)" "ns_chat_id s = c"
    by (simp_all add: open_sessions_mem)
  have prefix: "takeWhile (\<lambda>c. c \<noteq> 95) sid = str_int c"
    using consistentD(2) [OF con s'(1)] s'(2) s(2) by simp
  obtain r where r: "r \<in> set (chat_settings d)" "cs_chat_id r = c"
    using consistentD(3) [OF con s'(1)] s'(2) by auto
  have "length (open_sessions c d) = 1"
    using consistentD(4) [OF con r(1)] r(2) s(1) by (auto split: if_splits)
  with s(1) have one: "open_sessions c d = [s]"
    by (cases "open_sessions c d") auto
  have os: "open_sessions c' ?d2 = filter (\<lambda>s. ns_session_id s \<noteq> sid) (open_sessions c' d)" for c'
    by (simp add: open_sessions_cong [of ?d2 ?d1] open_sessions_complete_session)
  have img: "cs_chat_id ` set (chat_settings ?d2) = cs_chat_id ` set (chat_settings d)"
    by (rule chat_ids_image) simp
  have sess: "\<exists>s0 \<in> set (night_sessions d). ns_session_id t = ns_session_id s0 \<and>
      ns_chat_id t = ns_chat_id s0" if "t \<in> set (night_sessions ?d2)" for t
    using that by (auto simp: complete_session_def)
  show ?thesis
  proof (rule consistentI)
    show "distinct (map cs_chat_id (chat_settings ?d2))"
      using consistentD(1) [OF con] by simp
  next
    fix t assume "t \<in> set (night_sessions ?d2)"
    then show "takeWhile (\<lambda>c. c \<noteq> 95) (ns_session_id t) = str_int (ns_chat_id t)"
      using sess [of t] consistentD(2) [OF con] by auto
  next
    fix t assume "t \<in> set (night_sessions ?d2)"
    then have "ns_chat_id t \<in> cs_chat_id ` set (chat_settings d)"
      using sess [of t] consistentD(3) [OF con] by auto
    then show "ns_chat_id t \<in> cs_chat_id ` set (chat_settings ?d2)"
      by (simp only: img)
  next
    fix r' assume "r' \<in> set (chat_settings ?d2)"
    then obtain r0 where r0: "r0 \<in> set (chat_settings d)"
      "r' = (if cs_chat_id r0 = c then r0\<lparr>cs_is_night_mode_active := False\<rparr> else r0)"
      by (auto simp: deactivate_chat_def)
    show "length (open_sessions (cs_chat_id r') ?d2) =
        (if cs_is_night_mode_active r' then 1 else 0)"
    proof (cases "cs_chat_id r0 = c")
      case True
      with r0(2) have "cs_chat_id r' = c" "\<not> cs_is_night_mode_active r'" by simp_all
      then show ?thesis using s(2) by (simp only: os one) simp
    next
      case False
      with r0(2) have r': "r' = r0" by simp
      have "filter (\<lambda>s. ns_session_id s \<noteq> sid) (open_sessions (cs_chat_id r0) d) =
          open_sessions (cs_chat_id r0) d"
        using con prefix False by (rule open_sessions_other_chat)
      with consistentD(4) [OF con r0(1)] show ?thesis
        by (simp only: os r')
    qed
  qed
qed

lemma end_night_mode_atomic_cases:
  "\<not> raises w (DeactivateChat c) \<Longrightarrow>
   fst (end_night_mode w c d) = d \<or>
   (\<exists>sid n. select_open_session c d = Some sid \<and>
      fst (end_night_mode w c d) = deactivate_chat c (complete_session sid n d))"
  by (auto simp: end_night_mode_def Let_def split: option.splits)

lemma consistent_end_night_mode:
  assumes "consistent d" and "\<not> raises w (DeactivateChat c)"
  shows "consistent (fst (end_night_mode w c d))"
  using end_night_mode_atomic_cases [OF assms(2), of d] assms(1)
  by (auto simp: consistent_close)

subsection \<open>One row of the loop\<close>

lemma chat_opens:
  assumes "no_faults w" and "strftime_HM now = cs_start_time row"
    and "\<not> cs_is_night_mode_active row"
  shows "background_time_check_chat w now row d =
    (None,
     activate_chat (cs_chat_id row) (strftime_Ymd now)
       (insert_or_replace_session
          \<lparr>ns_session_id = str_int (cs_chat_id row) @ ascii ''_'' @ strftime_Ymd_HM now,
           ns_chat_id = cs_chat_id row, ns_start_time = isoformat now,
           ns_end_time = cs_end_time row, ns_message_count = 0, ns_is_completed = False\<rparr> d),
     [send_message w (cs_chat_id row) (Notification (cs_welcome_message row))])"
  using assms by (simp add: background_time_check_chat_def no_faults_def Let_def)

lemma chat_closes:
  assumes "strftime_HM now = cs_end_time row" and "cs_is_night_mode_active row"
  shows "background_time_check_chat w now row d =
    (None, fst (end_night_mode w (cs_chat_id row) d), snd (end_night_mode w (cs_chat_id row) d))"
  using assms by (simp add: background_time_check_chat_def Let_def split: prod.splits)

lemma chat_idles:
  assumes "strftime_HM now = cs_start_time row \<longrightarrow> cs_is_night_mode_active row"
    and "strftime_HM now = cs_end_time row \<longrightarrow> \<not> cs_is_night_mode_active row"
  shows "background_time_check_chat w now row d = (None, d, [])"
  using assms by (auto simp: background_time_check_chat_def Let_def)

lemma get_chat_settings_other_activate:
  "c' \<noteq> c \<Longrightarrow> get_chat_settings c' (activate_chat c date d) = get_chat_settings c' d"
  by (cases "get_chat_settings c' d")
     (auto simp: get_chat_settings_activate_chat dest: get_chat_settings_Some)

lemma get_chat_settings_other_deactivate:
  "c' \<noteq> c \<Longrightarrow> get_chat_settings c' (deactivate_chat c d) = get_chat_settings c' d"
  by (cases "get_chat_settings c' d")
     (auto simp: get_chat_settings_deactivate_chat dest: get_chat_settings_Some)

lemma get_chat_settings_insert_or_replace_session [simp]:
  "get_chat_settings c (insert_or_replace_session row d) = get_chat_settings c d"
  by (simp add: get_chat_settings_def)

lemma get_chat_settings_complete_session [simp]:
  "get_chat_settings c (complete_session sid n d) = get_chat_settings c d"
  by (simp add: get_chat_settings_def)

lemma get_chat_settings_other_end_night_mode:
  "c' \<noteq> c \<Longrightarrow> get_chat_settings c' (fst (end_night_mode w c d)) = get_chat_settings c' d"
  by (simp add: end_night_mode_def Let_def get_chat_settings_other_deactivate
      split: option.splits)

lemma get_chat_settings_other_chat:
  "c' \<noteq> cs_chat_id row \<Longrightarrow>
   get_chat_settings c' (fst (snd (background_time_check_chat w now row d))) =
   get_chat_settings c' d"
  by (simp add: background_time_check_chat_def Let_def get_chat_settings_other_activate
      get_chat_settings_other_end_night_mode split: prod.splits)

lemma chat_atomic_cases:
  assumes "\<not> raises w (ActivateChat (cs_chat_id row))"
  shows "fst (snd (background_time_check_chat w now row d)) = d \<or>
    fst (snd (background_time_check_chat w now row d)) = fst (end_night_mode w (cs_chat_id row) d) \<or>
    (\<not> cs_is_night_mode_active row \<and>
     fst (snd (background_time_check_chat w now row d)) =
       activate_chat (cs_chat_id row) (strftime_Ymd now)
         (insert_or_replace_session
            \<lparr>ns_session_id = str_int (cs_chat_id row) @ ascii ''_'' @ strftime_Ymd_HM now,
             ns_chat_id = cs_chat_id row, ns_start_time = isoformat now,
             ns_end_time = cs_end_time row, ns_message_count = 0, ns_is_completed = False\<rparr> d))"
  using assms by (simp add: background_time_check_chat_def Let_def split: prod.splits)

lemma consistent_chat:
  assumes "consistent d" and "atomic_writes w"
    and "get_chat_settings (cs_chat_id row) d = Some row"
  shows "consistent (fst (snd (background_time_check_chat w now row d)))"
proof -
  have a: "\<not> raises w (ActivateChat (cs_chat_id row))" "\<not> raises w (DeactivateChat (cs_chat_id row))"
    using assms(2) by (simp_all add: atomic_writes_def)
  from chat_atomic_cases [OF a(1), of now d] show ?thesis
    using assms(1,3) a(2) by (auto simp: consistent_end_night_mode consistent_open)
qed

lemma chat_no_exception:
  "no_faults w \<Longrightarrow> fst (background_time_check_chat w now row d) = None"
  by (simp add: background_time_check_chat_def no_faults_def Let_def split: prod.splits)

subsection \<open>The whole loop and the tick\<close>

lemma consistent_chats:
  assumes "atomic_writes w"
  shows "consistent d \<Longrightarrow> distinct (map cs_chat_id rows) \<Longrightarrow>
    (\<And>r. r \<in> set rows \<Longrightarrow> get_chat_settings (cs_chat_id r) d = Some r) \<Longrightarrow>
    consistent (fst (snd (background_time_check_chats w now rows d)))"
proof (induction rows arbitrary: d)
  case Nil
  then show ?case by simp
next
  case (Cons row rows)
  obtain e d' calls where b: "background_time_check_chat w now row d = (e, d', calls)"
    by (cases "background_time_check_chat w now row d")
  have con': "consistent d'"
    using consistent_chat [OF Cons.prems(1) assms, of row now] Cons.prems(3) b by simp
  show ?case
  proof (cases e)
    case (Some x)
    with b con' show ?thesis by simp
  next
    case None
    have rows': "get_chat_settings (cs_chat_id r) d' = Some r" if "r \<in> set rows" for r
    proof -
      from Cons.prems(2) have "cs_chat_id row \<notin> cs_chat_id ` set rows" by simp
      with that have "cs_chat_id r \<noteq> cs_chat_id row" by (metis imageI)
      then have "get_chat_settings (cs_chat_id r) d' = get_chat_settings (cs_chat_id r) d"
        using get_chat_settings_other_chat [of "cs_chat_id r" row w now d] b by simp
      with that Cons.prems(3) show ?thesis by simp
    qed
    have "consistent (fst (snd (background_time_check_chats w now rows d')))"
      using con' Cons.prems(2) rows' by (intro Cons.IH) simp_all
    with b None show ?thesis by (auto split: prod.splits)
  qed
qed

lemma consistent_tick:
  assumes "consistent d" and "atomic_writes w"
  shows "consistent (fst (background_time_check_tick w now d))"
proof -
  have d: "distinct (map cs_chat_id (select_enabled_chats d))"
    using consistentD(1) [OF assms(1)] by (simp add: select_enabled_chats_def distinct_map_filter)
  have "get_chat_settings (cs_chat_id r) d = Some r" if "r \<in> set (select_enabled_chats d)" for r
    using that consistentD(1) [OF assms(1)]
    by (simp add: select_enabled_chats_def get_chat_settings_def find_distinct_key)
  with assms d have "consistent (fst (snd (background_time_check_chats w now (select_enabled_chats d) d)))"
    by (intro consistent_chats) simp_all
  with assms(1) show ?thesis
    by (auto simp: background_time_check_tick_def split: prod.splits)
qed

lemma consistent_handle_group_message:
  assumes "consistent d" and "atomic_writes w"
  shows "consistent (handle_group_message w now t u c mid ty d)"
proof -
  have "\<not> raises w (DeactivateChat c)"
    using assms(2) by (simp add: atomic_writes_def)
  with assms(1) show ?thesis
    by (simp add: handle_group_message_def consistent_end_night_mode consistent_save_message
        split: option.splits)
qed

lemma reachable_atomic_consistent:
  "reachable atomic_writes False d \<Longrightarrow> consistent d"
proof (induction rule: reachable.induct)
  case r_initial
  show ?case by (rule consistent_empty_db)
next
  case (r_registered d c now)
  then show ?case by (simp add: consistent_add_chat)
next
  case (r_enabled d w c)
  then show ?case by (simp add: enable_night_mode_def consistent_update_chat_settings)
next
  case (r_disabled d w c)
  then show ?case by (simp add: disable_night_mode_def consistent_update_chat_settings)
next
  case (r_welcome d w c t)
  then show ?case by (simp add: update_welcome_message_def consistent_update_chat_settings)
next
  case (r_window d w st c t)
  then show ?case
    by (simp add: handle_waiting_time_def update_start_time_def update_end_time_def
        consistent_update_chat_settings split: waiting_time.splits option.splits)
next
  case (r_tick d w now)
  then show ?case by (simp add: consistent_tick)
next
  case (r_group_message d w now t u c mid ty)
  then show ?case by (simp add: consistent_handle_group_message)
qed

lemma no_faults_atomic_writes: "no_faults w \<Longrightarrow> atomic_writes w"
  by (simp add: no_faults_def atomic_writes_def)

lemma consistent_flag_matches_ledger:
  "consistent d \<Longrightarrow> flag_matches_ledger d"
  by (auto simp: consistent_def flag_matches_ledger_def list_all_iff)

lemma strftime_HM_05: "strftime_HM (clock 3 5 0) = [48, 53, 58, 48, 48]"
  by (simp add: strftime_HM_def clock_def zfill_def ascii_def str_nat.simps)

lemma night_db_closed:
  "map cs_is_night_mode_active
     (chat_settings (fst (background_time_check_tick quiet_world (clock 3 5 0) night_db))) = [False] \<and>
   map ns_is_completed
     (night_sessions (fst (background_time_check_tick quiet_world (clock 3 5 0) night_db))) = [True]"
  by (simp add: night_db_eval quiet_world_def background_time_check_tick_def
      background_time_check_chat_def select_enabled_chats_def end_night_mode_def
      select_open_session_def open_sessions_def select_messages_def get_chat_settings_def
      complete_session_def deactivate_chat_def send_message_def Let_def strftime_HM_05 ascii_def)

lemma atomic_writes_quiet_world: "atomic_writes quiet_world"
  by (simp add: atomic_writes_def quiet_world_def)

text \<open>
  Claim C1 fails in two ways. Registering chat \<open>-1001\<close> again while its session is open
  replaces its row by the defaults, flag cleared, and leaves the open session in the
  ledger. And when the INSERT of the session has run and the UPDATE that sets the flag
  raises, the open transition leaves an open session with the flag cleared: the source
  never rolls back, and SQLite undoes only the statement that failed.
\<close>

theorem flag_and_ledger_diverge:
  "flag_matches_ledger night_db \<and>
   \<not> flag_matches_ledger (add_chat (clock 3 12 0) (- 1001) night_db) \<and>
   flag_matches_ledger
     (enable_night_mode quiet_world (- 1001) (add_chat (clock 2 12 0) (- 1001) empty_db)) \<and>
   \<not> flag_matches_ledger
     (fst (background_time_check_tick half_open_world (clock 2 23 0)
        (enable_night_mode quiet_world (- 1001) (add_chat (clock 2 12 0) (- 1001) empty_db))))"
proof -
  have a: "flag_matches_ledger night_db"
    by (simp add: flag_matches_ledger_def open_sessions_def night_db_eval)
  have b: "\<not> flag_matches_ledger (add_chat (clock 3 12 0) (- 1001) night_db)"
    by (simp add: flag_matches_ledger_def open_sessions_def add_chat_def night_db_eval)
  have c: "flag_matches_ledger
     (enable_night_mode quiet_world (- 1001) (add_chat (clock 2 12 0) (- 1001) empty_db))"
    by (simp add: flag_matches_ledger_def open_sessions_def enable_night_mode_def
        update_chat_settings_def quiet_world_def add_chat_def empty_db_def)
  have d: "\<not> flag_matches_ledger
     (fst (background_time_check_tick half_open_world (clock 2 23 0)
        (enable_night_mode quiet_world (- 1001) (add_chat (clock 2 12 0) (- 1001) empty_db))))"
    by (simp add: flag_matches_ledger_def open_sessions_def half_open_world_def quiet_world_def
        background_time_check_tick_def background_time_check_chat_def select_enabled_chats_def
        enable_night_mode_def update_chat_settings_def add_chat_def empty_db_def
        insert_or_replace_session_def Let_def strftime_HM_23 ascii_def)
  from a b c d show ?thesis by simp
qed

text \<open>
  Claim C1, amended. In every state reached from the empty database by registrations of
  chats not yet tracked, settings edits, ticks and group messages in which the UPDATE of
  \<^verbatim>\<open>chat_settings\<close> does not raise (whatever else raises or fails), a chat's active flag
  is set exactly when one session row of that chat is not completed; and a further tick
  (the open and close transitions), a further \<^verbatim>\<open>end_night_mode\<close> and a further group
  message (the forced cleanup among them) in such a world keep it so.
\<close>

theorem active_flag_iff_one_open_session:
  assumes "reachable atomic_writes False d" and "atomic_writes w"
  shows "flag_matches_ledger d \<and>
         flag_matches_ledger (fst (background_time_check_tick w now d)) \<and>
         flag_matches_ledger (fst (end_night_mode w c d)) \<and>
         flag_matches_ledger (handle_group_message w now t u c mid ty d)"
proof -
  from assms(1) have "consistent d" by (rule reachable_atomic_consistent)
  moreover have "\<not> raises w (DeactivateChat c)"
    using assms(2) by (simp add: atomic_writes_def)
  ultimately show ?thesis
    using assms(2)
    by (simp add: consistent_flag_matches_ledger consistent_tick consistent_end_night_mode
        consistent_handle_group_message)
qed

theorem active_flag_iff_one_open_session_witness:
  "map cs_is_night_mode_active (chat_settings night_db) = [True] \<and>
   map ns_is_completed (night_sessions night_db) = [False] \<and>
   flag_matches_ledger night_db \<and>
   map cs_is_night_mode_active
     (chat_settings (fst (background_time_check_tick quiet_world (clock 3 5 0) night_db))) = [False] \<and>
   map ns_is_completed
     (night_sessions (fst (background_time_check_tick quiet_world (clock 3 5 0) night_db))) = [True] \<and>
   flag_matches_ledger (fst (background_time_check_tick quiet_world (clock 3 5 0) night_db)) \<and>
   flag_matches_ledger (fst (end_night_mode quiet_world (- 1001) night_db))"
proof -
  have r: "reachable atomic_writes False night_db"
    by (rule reachable_night_db) (rule atomic_writes_quiet_world)
  have e: "map cs_is_night_mode_active (chat_settings night_db) = [True] \<and>
      map ns_is_completed (night_sessions night_db) = [False]"
    by (simp add: night_db_eval)
  from active_flag_iff_one_open_session [OF r atomic_writes_quiet_world, of "clock 3 5 0" "- 1001"]
    e night_db_closed
  show ?thesis by simp
qed

section \<open>What a purge attempts and reports\<close>

lemma delete_loop_eq:
  "delete_loop w c ms n calls =
     (n + length (filter (delete_ok w c) ms), calls @ map (delete_message w c) ms)"
  by (induction ms arbitrary: n calls) simp_all

lemma purge_report_deletions:
  "purge_report (map (delete_message w c) ms) =
     \<lparr>attempted = length ms, deleted = length (filter (delete_ok w c) ms),
      failed = length (filter (\<lambda>m. \<not> delete_ok w c m) ms)\<rparr>"
  by (induction ms) (simp_all add: purge_report_def delete_message_def)

lemma purge_report_append_send [simp]:
  "purge_report (calls @ [send_message w c t]) = purge_report calls"
  by (simp add: purge_report_def send_message_def)

lemma purge_report_Nil [simp]:
  "purge_report [] = \<lparr>attempted = 0, deleted = 0, failed = 0\<rparr>"
  by (simp add: purge_report_def)

text \<open>The report of a call that found an open session and could read its messages.\<close>

lemma end_night_mode_report:
  assumes "\<not> raises w (SelectOpenSession c)" and "\<not> raises w (SelectMessages c)"
    and "select_open_session c d = Some sid"
  shows "purge_report (snd (end_night_mode w c d)) =
     \<lparr>attempted = length (select_messages c sid d),
      deleted = length (filter (delete_ok w c) (select_messages c sid d)),
      failed = length (filter (\<lambda>m. \<not> delete_ok w c m) (select_messages c sid d))\<rparr>"
  using assms
  by (simp add: end_night_mode_def Let_def delete_loop_eq purge_report_deletions
      split: option.splits)

lemma end_night_mode_completes:
  assumes "\<not> raises w (SelectOpenSession c)" and "\<not> raises w (SelectMessages c)"
    and "\<not> raises w (SelectSettings c)" and "\<not> raises w (CompleteSession c)"
    and "select_open_session c d = Some sid"
  shows "night_sessions (fst (end_night_mode w c d)) =
     night_sessions
       (complete_session sid (length (filter (delete_ok w c) (select_messages c sid d))) d)"
  using assms
  by (simp add: end_night_mode_def Let_def delete_loop_eq)

lemma end_night_mode_calls:
  assumes "\<not> raises w (SelectOpenSession c)" and "\<not> raises w (SelectMessages c)"
    and "\<not> raises w (SelectSettings c)"
    and "select_open_session c d = Some sid"
  shows "snd (end_night_mode w c d) =
     map (delete_message w c) (select_messages c sid d) @
     (case get_chat_settings c d of
        None \<Rightarrow> []
      | Some settings \<Rightarrow>
          [send_message w c
             (CleanupReport (length (filter (delete_ok w c) (select_messages c sid d)))
                (cs_start_time settings) (cs_end_time settings))])"
  using assms
  by (simp add: end_night_mode_def Let_def delete_loop_eq split: option.splits)

lemma complete_session_marks:
  "list_all (\<lambda>s. ns_session_id s = sid \<longrightarrow> ns_is_completed s \<and> ns_message_count s = n)
     (night_sessions (complete_session sid n d))"
proof -
  have "list_all (\<lambda>s. ns_session_id s = sid \<longrightarrow> ns_is_completed s \<and> ns_message_count s = n)
      (map (\<lambda>s. if ns_session_id s = sid
                 then s\<lparr>ns_is_completed := True, ns_message_count := n\<rparr> else s) xs)" for xs
    by (induction xs) simp_all
  then show ?thesis by (simp add: complete_session_def)
qed

text \<open>
  Claim C4. A purge of a session with five captured messages, one of whose deletions fails,
  attempts five deletions, counts four as deleted and one as failed, and still marks the
  session completed, with the count of four. The calls it makes are the five deletions,
  one per captured message, and then, when the chat has a settings row, the report with
  the number four.
\<close>

theorem purge_five_one_failure:
  assumes "\<not> raises w (SelectOpenSession c)" and "\<not> raises w (SelectMessages c)"
    and "\<not> raises w (SelectSettings c)" and "\<not> raises w (CompleteSession c)"
    and "select_open_session c d = Some sid"
    and "length (select_messages c sid d) = 5"
    and "length (filter (\<lambda>m. \<not> delete_ok w c m) (select_messages c sid d)) = 1"
  shows "purge_report (snd (end_night_mode w c d)) = \<lparr>attempted = 5, deleted = 4, failed = 1\<rparr> \<and>
         sid \<in> ns_session_id ` set (night_sessions (fst (end_night_mode w c d))) \<and>
         list_all (\<lambda>s. ns_session_id s = sid \<longrightarrow> ns_is_completed s \<and> ns_message_count s = 4)
           (night_sessions (fst (end_night_mode w c d))) \<and>
         snd (end_night_mode w c d) =
           map (delete_message w c) (select_messages c sid d) @
           (case get_chat_settings c d of
              None \<Rightarrow> []
            | Some settings \<Rightarrow>
                [send_message w c
                   (CleanupReport 4 (cs_start_time settings) (cs_end_time settings))])"
proof -
  let ?ms = "select_messages c sid d"
  have "length (filter (delete_ok w c) ?ms) + length (filter (\<lambda>m. \<not> delete_ok w c m) ?ms) =
      length ?ms"
    by (rule sum_length_filter_compl)
  with assms(6,7) have ok: "length (filter (delete_ok w c) ?ms) = 4" by simp
  obtain s where s: "s \<in> set (open_sessions c d)" "ns_session_id s = sid"
    using select_open_session_Some [OF assms(5)] by auto
  then have "s \<in> set (night_sessions d)" by (simp add: open_sessions_mem)
  with s(2) have "sid \<in> ns_session_id ` set (night_sessions d)" by auto
  moreover have "map ns_session_id (night_sessions (fst (end_night_mode w c d))) =
      map ns_session_id (night_sessions d)"
    by (simp add: end_night_mode_completes [OF assms(1-5)])
  then have "ns_session_id ` set (night_sessions (fst (end_night_mode w c d))) =
      ns_session_id ` set (night_sessions d)"
    by (metis set_map)
  ultimately have present: "sid \<in> ns_session_id ` set (night_sessions (fst (end_night_mode w c d)))"
    by simp
  have report: "purge_report (snd (end_night_mode w c d)) = \<lparr>attempted = 5, deleted = 4, failed = 1\<rparr>"
    unfolding end_night_mode_report [OF assms(1,2,5)] assms(6,7) ok by simp
  have marked: "list_all (\<lambda>s. ns_session_id s = sid \<longrightarrow> ns_is_completed s \<and> ns_message_count s = 4)
      (night_sessions (fst (end_night_mode w c d)))"
    unfolding end_night_mode_completes [OF assms(1-5)] ok
    by (rule complete_session_marks)
  have calls: "snd (end_night_mode w c d) =
      map (delete_message w c) ?ms @
      (case get_chat_settings c d of
         None \<Rightarrow> []
       | Some settings \<Rightarrow>
           [send_message w c (CleanupReport 4 (cs_start_time settings) (cs_end_time settings))])"
    unfolding end_night_mode_calls [OF assms(1,2,3,5)] ok by (rule refl)
  from report present marked calls show ?thesis by simp
qed

section \<open>Five captured messages, one deletion failing\<close>

lemma capture_eval:
  assumes "chat_settings d = chat_settings night_db" and "night_sessions d = night_sessions night_db"
  shows "capture mid d =
     d\<lparr>saved_messages := saved_messages d @
        [\<lparr>sm_id = Suc (length (saved_messages d)), sm_chat_id = - 1001, sm_message_id = mid,
          sm_user_id = 7, sm_message_text = ascii ''hello'', sm_message_type = ascii ''text'',
          sm_saved_date = isoformat (clock 2 23 30),
          sm_night_mode_session = ascii ''-1001_20240302_2300''\<rparr>]\<rparr>"
  using assms
  by (simp add: capture_def handle_group_message_def night_db_eval get_chat_settings_def
      get_current_session_def select_open_session_def open_sessions_def save_message_def
      quiet_world_def ascii_def)

lemma five_messages_db_eval:
  "five_messages_db =
     night_db\<lparr>saved_messages :=
       map (\<lambda>(i, mid).
         \<lparr>sm_id = i, sm_chat_id = - 1001, sm_message_id = mid,
          sm_user_id = 7, sm_message_text = ascii ''hello'', sm_message_type = ascii ''text'',
          sm_saved_date = isoformat (clock 2 23 30),
          sm_night_mode_session = ascii ''-1001_20240302_2300''\<rparr>)
        [(Suc 0, 11), (2, 12), (3, 13), (4, 14), (5, 15)]\<rparr>"
  by (simp add: five_messages_db_def capture_eval) (simp add: night_db_eval)

lemma select_open_session_night_db:
  "night_sessions d = night_sessions night_db \<Longrightarrow>
   select_open_session (- 1001) d = Some (ascii ''-1001_20240302_2300'')"
  by (simp add: select_open_session_def open_sessions_def night_db_eval)

lemma five_messages_selected:
  "select_messages (- 1001) (ascii ''-1001_20240302_2300'') five_messages_db = [11, 12, 13, 14, 15]"
  by (simp add: select_messages_def five_messages_db_eval)

lemma five_messages_session:
  "select_open_session (- 1001) five_messages_db = Some (ascii ''-1001_20240302_2300'')"
  by (rule select_open_session_night_db) (simp add: five_messages_db_eval)

theorem purge_five_one_failure_witness:
  "purge_report (snd (end_night_mode flaky_world (- 1001) five_messages_db)) =
     \<lparr>attempted = 5, deleted = 4, failed = 1\<rparr> \<and>
   ascii ''-1001_20240302_2300''
     \<in> ns_session_id ` set (night_sessions (fst (end_night_mode flaky_world (- 1001) five_messages_db))) \<and>
   list_all (\<lambda>s. ns_session_id s = ascii ''-1001_20240302_2300'' \<longrightarrow>
        ns_is_completed s \<and> ns_message_count s = 4)
     (night_sessions (fst (end_night_mode flaky_world (- 1001) five_messages_db))) \<and>
   snd (end_night_mode flaky_world (- 1001) five_messages_db) =
     [DeleteMessage (- 1001) 11 True, DeleteMessage (- 1001) 12 True,
      DeleteMessage (- 1001) 13 False, DeleteMessage (- 1001) 14 True,
      DeleteMessage (- 1001) 15 True,
      SendMessage (- 1001) (CleanupReport 4 (ascii ''23:00'') (ascii ''05:00'')) True]"
proof -
  have q: "\<not> raises flaky_world st" for st
    by (simp add: flaky_world_def quiet_world_def)
  have five: "length (select_messages (- 1001) (ascii ''-1001_20240302_2300'') five_messages_db) = 5"
    by (simp add: five_messages_selected)
  have one: "length (filter (\<lambda>m. \<not> delete_ok flaky_world (- 1001) m)
      (select_messages (- 1001) (ascii ''-1001_20240302_2300'') five_messages_db)) = 1"
    by (simp add: five_messages_selected flaky_world_def)
  have settings: "get_chat_settings (- 1001) five_messages_db =
      Some (hd (chat_settings night_db))"
    by (simp add: get_chat_settings_def five_messages_db_eval night_db_eval)
  have calls: "map (delete_message flaky_world (- 1001)) [11, 12, 13, 14, 15] @
      [send_message flaky_world (- 1001)
         (CleanupReport 4 (cs_start_time (hd (chat_settings night_db)))
            (cs_end_time (hd (chat_settings night_db))))] =
     [DeleteMessage (- 1001) 11 True, DeleteMessage (- 1001) 12 True,
      DeleteMessage (- 1001) 13 False, DeleteMessage (- 1001) 14 True,
      DeleteMessage (- 1001) 15 True,
      SendMessage (- 1001) (CleanupReport 4 (ascii ''23:00'') (ascii ''05:00'')) True]"
    by (simp add: delete_message_def send_message_def flaky_world_def quiet_world_def
        night_db_eval)
  note inst = purge_five_one_failure [OF q q q q five_messages_session five one]
  note report = inst [THEN conjunct1]
  note present = inst [THEN conjunct2, THEN conjunct1]
  note marked = inst [THEN conjunct2, THEN conjunct2, THEN conjunct1]
  note trace = inst [THEN conjunct2, THEN conjunct2, THEN conjunct2,
      unfolded five_messages_selected settings option.case calls]
  from report present marked trace show ?thesis by (intro conjI)
qed

section \<open>Closing twice\<close>

lemma consistent_one_open_session:
  assumes "consistent d" and "s \<in> set (open_sessions c d)"
  shows "open_sessions c d = [s]"
proof -
  from assms(2) have s: "s \<in> set (night_sessions d)" "ns_chat_id s = c"
    by (simp_all add: open_sessions_mem)
  obtain r where r: "r \<in> set (chat_settings d)" "cs_chat_id r = c"
    using consistentD(3) [OF assms(1) s(1)] s(2) by auto
  have "length (open_sessions c d) = 1"
    using consistentD(4) [OF assms(1) r(1)] r(2) assms(2) by (auto split: if_splits)
  with assms(2) show ?thesis by (cases "open_sessions c d") auto
qed

text \<open>
  In the states of the amended C1 an open session of a chat is its only open session.
\<close>

lemma reachable_one_open_session:
  "reachable atomic_writes False d \<Longrightarrow> s \<in> set (open_sessions c d) \<Longrightarrow> open_sessions c d = [s]"
  by (rule consistent_one_open_session [OF reachable_atomic_consistent])

lemma end_night_mode_no_session:
  "select_open_session c d = None \<Longrightarrow> end_night_mode w c d = (d, [])"
  by (simp add: end_night_mode_def)

lemma select_open_session_cong:
  "night_sessions d' = night_sessions d \<Longrightarrow> select_open_session c d' = select_open_session c d"
  by (simp add: select_open_session_def open_sessions_def)

lemma end_night_mode_stuck:
  "raises w (CompleteSession c) \<Longrightarrow> fst (end_night_mode w c d) = d"
  by (simp add: end_night_mode_def Let_def split: option.splits)

subsection \<open>A chat with two open sessions\<close>

lemma strftime_Ymd_HM_23_next:
  "strftime_Ymd_HM (clock 3 23 0) = [50, 48, 50, 52, 48, 51, 48, 51, 95, 50, 51, 48, 48]"
  by (simp add: strftime_Ymd_HM_def clock_def zfill_def ascii_def str_nat.simps)

lemma isoformat_23:
  "isoformat (clock 2 23 0) = ascii ''2024-03-02T23:00:00''"
  "isoformat (clock 3 23 0) = ascii ''2024-03-03T23:00:00''"
  by (simp_all add: isoformat_def strftime_Ymd_def clock_def zfill_def ascii_def str_nat.simps)

lemma two_open_db_eval:
  "two_open_db =
    \<lparr>chat_settings =
       [\<lparr>cs_chat_id = - 1001, cs_chat_title = None, cs_night_mode_enabled = True,
         cs_start_time = ascii ''23:00'', cs_end_time = ascii ''05:00'',
         cs_welcome_message = default_welcome_message, cs_is_active = True,
         cs_added_date = Some (isoformat (clock 2 12 0)),
         cs_last_notification_date = Some (strftime_Ymd (clock 3 23 0)),
         cs_is_night_mode_active = True\<rparr>],
     night_sessions =
       [\<lparr>ns_session_id = ascii ''-1001_20240302_2300'', ns_chat_id = - 1001,
         ns_start_time = ascii ''2024-03-02T23:00:00'', ns_end_time = ascii ''05:00'',
         ns_message_count = 0, ns_is_completed = False\<rparr>,
        \<lparr>ns_session_id = ascii ''-1001_20240303_2300'', ns_chat_id = - 1001,
         ns_start_time = ascii ''2024-03-03T23:00:00'', ns_end_time = ascii ''05:00'',
         ns_message_count = 0, ns_is_completed = False\<rparr>],
     saved_messages = []\<rparr>"
  by (simp add: two_open_db_def half_open_world_def quiet_world_def background_time_check_tick_def
      background_time_check_chat_def select_enabled_chats_def enable_night_mode_def
      update_chat_settings_def add_chat_def empty_db_def insert_or_replace_session_def
      activate_chat_def send_message_def Let_def strftime_HM_23 strftime_HM_23_next
      strftime_Ymd_HM_23 strftime_Ymd_HM_23_next str_int_1001 isoformat_23 ascii_def)

lemma two_open_db_first_close:
  "fst (end_night_mode quiet_world (- 1001) two_open_db) =
     two_open_db
       \<lparr>chat_settings := map (\<lambda>r. r\<lparr>cs_is_night_mode_active := False\<rparr>) (chat_settings two_open_db),
        night_sessions :=
          [\<lparr>ns_session_id = ascii ''-1001_20240302_2300'', ns_chat_id = - 1001,
            ns_start_time = ascii ''2024-03-02T23:00:00'', ns_end_time = ascii ''05:00'',
            ns_message_count = 0, ns_is_completed = False\<rparr>,
           \<lparr>ns_session_id = ascii ''-1001_20240303_2300'', ns_chat_id = - 1001,
            ns_start_time = ascii ''2024-03-03T23:00:00'', ns_end_time = ascii ''05:00'',
            ns_message_count = 0, ns_is_completed = True\<rparr>]\<rparr>"
  by (simp add: two_open_db_eval quiet_world_def end_night_mode_def select_open_session_def
      open_sessions_def select_messages_def get_chat_settings_def complete_session_def
      deactivate_chat_def send_message_def Let_def ascii_def)

text \<open>
  Claim C3 fails in two ways. When the UPDATE that completes the session raises, the close
  transition has made its five deletion calls and leaves the session open, so the next
  close transition makes the five calls again. And \<^verbatim>\<open>end_night_mode\<close> closes one session
  of the chat, the latest: where the chat has two open sessions, the second call completes
  the other one and sends a report, so it changes the ledger.
\<close>

theorem second_close_is_not_a_no_op:
  "attempted (purge_report (snd (end_night_mode stuck_world (- 1001) five_messages_db))) = 5 \<and>
   attempted (purge_report (snd (end_night_mode quiet_world (- 1001)
     (fst (end_night_mode stuck_world (- 1001) five_messages_db))))) = 5 \<and>
   map ns_is_completed (night_sessions two_open_db) = [False, False] \<and>
   map ns_is_completed
     (night_sessions (fst (end_night_mode quiet_world (- 1001) two_open_db))) = [False, True] \<and>
   end_night_mode quiet_world (- 1001) (fst (end_night_mode quiet_world (- 1001) two_open_db)) =
     (complete_session (ascii ''-1001_20240302_2300'') 0
        (fst (end_night_mode quiet_world (- 1001) two_open_db)),
      [SendMessage (- 1001) (CleanupReport 0 (ascii ''23:00'') (ascii ''05:00'')) True]) \<and>
   map ns_is_completed
     (night_sessions (fst (end_night_mode quiet_world (- 1001)
        (fst (end_night_mode quiet_world (- 1001) two_open_db))))) = [True, True]"
proof -
  have s: "\<not> raises stuck_world (SelectOpenSession (- 1001))"
      "\<not> raises stuck_world (SelectMessages (- 1001))"
      "raises stuck_world (CompleteSession (- 1001))"
    by (simp_all add: stuck_world_def quiet_world_def)
  have q: "\<not> raises quiet_world st" for st
    by (simp add: quiet_world_def)
  have a: "attempted (purge_report (snd (end_night_mode stuck_world (- 1001) five_messages_db))) = 5"
    by (simp add: end_night_mode_report [OF s(1,2) five_messages_session] five_messages_selected)
  have b: "attempted (purge_report (snd (end_night_mode quiet_world (- 1001)
     (fst (end_night_mode stuck_world (- 1001) five_messages_db))))) = 5"
    by (simp add: end_night_mode_stuck [OF s(3)]
        end_night_mode_report [OF q q five_messages_session] five_messages_selected)
  have c: "map ns_is_completed (night_sessions two_open_db) = [False, False]"
    by (simp add: two_open_db_eval)
  have d: "map ns_is_completed
     (night_sessions (fst (end_night_mode quiet_world (- 1001) two_open_db))) = [False, True]"
    by (simp add: two_open_db_first_close)
  have e: "end_night_mode quiet_world (- 1001) (fst (end_night_mode quiet_world (- 1001) two_open_db)) =
     (complete_session (ascii ''-1001_20240302_2300'') 0
        (fst (end_night_mode quiet_world (- 1001) two_open_db)),
      [SendMessage (- 1001) (CleanupReport 0 (ascii ''23:00'') (ascii ''05:00'')) True])"
    unfolding two_open_db_first_close
    by (simp add: two_open_db_eval quiet_world_def end_night_mode_def select_open_session_def
      open_sessions_def select_messages_def get_chat_settings_def complete_session_def
      deactivate_chat_def send_message_def Let_def ascii_def)
  have f: "map ns_is_completed
     (night_sessions (fst (end_night_mode quiet_world (- 1001)
        (fst (end_night_mode quiet_world (- 1001) two_open_db))))) = [True, True]"
    unfolding e by (simp add: two_open_db_first_close complete_session_def ascii_def)
  from a b c d e f show ?thesis by (intro conjI)
qed

text \<open>
  Claim C3, amended. For a chat with exactly one open session, a close transition whose
  four store statements before the flag is cleared (the two SELECTs, the read of the
  settings, the UPDATE of \<^verbatim>\<open>night_sessions\<close>) do not raise purges the session: it attempts
  one deletion per captured message. A second close transition, in whatever world, finds
  no open session: it returns the state as the first left it (ledger, retention store and
  settings), makes no remote call, and its report counts nothing.
\<close>

theorem close_twice_purges_once:
  assumes "open_sessions c d = [s]"
    and "\<not> raises w (SelectOpenSession c)" and "\<not> raises w (SelectMessages c)"
    and "\<not> raises w (SelectSettings c)" and "\<not> raises w (CompleteSession c)"
  shows "attempted (purge_report (snd (end_night_mode w c d))) =
           length (select_messages c (ns_session_id s) d) \<and>
         end_night_mode w' c (fst (end_night_mode w c d)) = (fst (end_night_mode w c d), []) \<and>
         purge_report (snd (end_night_mode w' c (fst (end_night_mode w c d)))) =
           \<lparr>attempted = 0, deleted = 0, failed = 0\<rparr>"
proof -
  let ?sid = "ns_session_id s"
  have sel: "select_open_session c d = Some ?sid"
    by (simp add: select_open_session_def assms(1))
  have first: "attempted (purge_report (snd (end_night_mode w c d))) =
      length (select_messages c ?sid d)"
    by (simp add: end_night_mode_report [OF assms(2,3) sel])
  have "night_sessions (fst (end_night_mode w c d)) =
      night_sessions (complete_session ?sid
        (length (filter (delete_ok w c) (select_messages c ?sid d))) d)"
    using assms(2-5) sel by (rule end_night_mode_completes)
  then have "select_open_session c (fst (end_night_mode w c d)) =
      select_open_session c (complete_session ?sid
        (length (filter (delete_ok w c) (select_messages c ?sid d))) d)"
    by (rule select_open_session_cong)
  then have "select_open_session c (fst (end_night_mode w c d)) = None"
    by (simp add: select_open_session_None open_sessions_complete_session assms(1))
  then have second: "end_night_mode w' c (fst (end_night_mode w c d)) =
      (fst (end_night_mode w c d), [])"
    by (rule end_night_mode_no_session)
  from first second show ?thesis by (simp add: purge_report_def)
qed

lemma five_messages_open:
  "open_sessions (- 1001) five_messages_db =
     [\<lparr>ns_session_id = ascii ''-1001_20240302_2300'', ns_chat_id = - 1001,
       ns_start_time = isoformat (clock 2 23 0), ns_end_time = ascii ''05:00'',
       ns_message_count = 0, ns_is_completed = False\<rparr>]"
  by (simp add: open_sessions_def five_messages_db_eval night_db_eval)

theorem close_twice_purges_once_witness:
  "attempted (purge_report (snd (end_night_mode quiet_world (- 1001) five_messages_db))) = 5 \<and>
   end_night_mode flaky_world (- 1001) (fst (end_night_mode quiet_world (- 1001) five_messages_db)) =
     (fst (end_night_mode quiet_world (- 1001) five_messages_db), []) \<and>
   purge_report (snd (end_night_mode flaky_world (- 1001)
       (fst (end_night_mode quiet_world (- 1001) five_messages_db)))) =
     \<lparr>attempted = 0, deleted = 0, failed = 0\<rparr>"
proof -
  have q: "\<not> raises quiet_world st" for st
    by (simp add: quiet_world_def)
  from close_twice_purges_once [OF five_messages_open q q q q, of flaky_world]
  show ?thesis by (simp add: five_messages_selected)
qed

section \<open>A captured message is attempted once, by its own session's purge\<close>

text \<open>\<^verbatim>\<open>handle_group_message\<close> saves under the session that is open for the chat.\<close>

lemma handle_group_message_saves:
  assumes "get_chat_settings c d = Some r" and "cs_is_night_mode_active r"
    and "get_current_session c d = Some S" and "ty \<noteq> ascii ''text''"
    and "\<not> raises w (SelectSettings c)" and "\<not> raises w (SelectOpenSession c)"
  shows "handle_group_message w now t u c mid ty d = save_message w now c mid u t ty S d"
  using assms by (simp add: handle_group_message_def)

text \<open>
  Claim C7. Take a message saved under session \<open>S\<close> of chat \<open>c\<close>, and any later state
  \<open>d2\<close> that still holds its row. A purge in \<open>d2\<close>, of whatever chat \<open>c'\<close> and session
  \<open>S'\<close>, attempts as many deletions as it would without the row, and one more exactly when
  it is the purge of \<open>S\<close> for \<open>c\<close>: the message counts once in the report of its own
  session and in no other.
\<close>

theorem captured_message_counted_once:
  assumes "\<not> raises w0 (InsertMessage c)"
    and "saved_messages d2 = saved_messages (save_message w0 now c mid u t ty S d) @ later"
    and "\<not> raises w (SelectOpenSession c')" and "\<not> raises w (SelectMessages c')"
    and "select_open_session c' d2 = Some S'"
  shows "attempted (purge_report (snd (end_night_mode w c' d2))) =
         attempted (purge_report
           (snd (end_night_mode w c' (d2\<lparr>saved_messages := saved_messages d @ later\<rparr>)))) +
         (if c' = c \<and> S' = S then 1 else 0)"
proof -
  let ?d0 = "d2\<lparr>saved_messages := saved_messages d @ later\<rparr>"
  have sel0: "select_open_session c' ?d0 = Some S'"
    using assms(5) by (simp add: select_open_session_cong [of ?d0 d2])
  have "length (select_messages c' S' d2) =
      length (select_messages c' S' ?d0) + (if c' = c \<and> S' = S then 1 else 0)"
    using assms(1) by (auto simp: select_messages_def assms(2) save_message_def)
  then show ?thesis
    by (simp add: end_night_mode_report [OF assms(3,4,5)] end_night_mode_report [OF assms(3,4) sel0])
qed

theorem captured_message_counted_once_witness:
  "attempted (purge_report (snd (end_night_mode quiet_world (- 1001)
      (save_message quiet_world (clock 2 23 30) (- 1001) 11 7 (ascii ''hello'') (ascii ''text'')
         (ascii ''-1001_20240302_2300'') night_db)))) = 1"
proof -
  let ?d2 = "save_message quiet_world (clock 2 23 30) (- 1001) 11 7 (ascii ''hello'') (ascii ''text'')
         (ascii ''-1001_20240302_2300'') night_db"
  have s: "select_open_session (- 1001) ?d2 = Some (ascii ''-1001_20240302_2300'')"
    by (rule select_open_session_night_db) (simp add: save_message_def)
  have e: "?d2\<lparr>saved_messages := saved_messages night_db @ []\<rparr> = night_db"
    by (simp add: save_message_def night_db_eval)
  have z: "attempted (purge_report (snd (end_night_mode quiet_world (- 1001) night_db))) = 0"
    using end_night_mode_report [of quiet_world "- 1001" night_db "ascii ''-1001_20240302_2300''"]
      select_open_session_night_db [of night_db]
    by (simp add: quiet_world_def select_messages_def night_db_eval)
  have q: "\<not> raises quiet_world st" for st
    by (simp add: quiet_world_def)
  have "attempted (purge_report (snd (end_night_mode quiet_world (- 1001) ?d2))) =
      attempted (purge_report (snd (end_night_mode quiet_world (- 1001)
        (?d2\<lparr>saved_messages := saved_messages night_db @ []\<rparr>)))) +
      (if - 1001 = (- 1001 :: int) \<and>
          ascii ''-1001_20240302_2300'' = ascii ''-1001_20240302_2300'' then 1 else 0)"
    by (rule captured_message_counted_once [OF q _ q q s]) simp
  then show ?thesis unfolding e z by simp
qed

section \<open>Writing a window\<close>

lemma get_chat_settings_update_chat_settings:
  assumes "\<And>r. cs_chat_id (f r) = cs_chat_id r" and "\<not> raises w (UpdateSettings c)"
  shows "get_chat_settings c (update_chat_settings w c f d) = map_option f (get_chat_settings c d)"
proof -
  have "get_chat_settings c (update_chat_settings w c f d) =
      map_option (\<lambda>r. if cs_chat_id r = c then f r else r) (get_chat_settings c d)"
    using assms unfolding get_chat_settings_def update_chat_settings_def
    by (simp add: find_map_key [where key = cs_chat_id])
  also have "\<dots> = map_option f (get_chat_settings c d)"
    by (cases "get_chat_settings c d") (auto dest: get_chat_settings_Some)
  finally show ?thesis .
qed

lemma is_valid_time_0500: "is_valid_time w (ascii ''05:00'')"
  by (simp add: is_valid_time_def ascii_def is_digit_def)

lemma is_valid_time_2500: "\<not> is_valid_time w (ascii ''25:00'')"
  by (simp add: is_valid_time_def ascii_def is_digit_def)

text \<open>
  The text of two Arabic-Indic digits around a colon (code points 1637, 58, 1632) passes
  the check where the runtime has the digits of Unicode 14.
\<close>

lemma is_valid_time_arabic_indic: "is_valid_time quiet_world [1637, 58, 1632]"
  by (simp add: is_valid_time_def is_digit_def quiet_world_def unicode_14_decimal_def)

text \<open>
  Claim C2 fails: the source has no check that compares the two ends of the window. With
  the end time at its default 05:00, the start time 05:00 is accepted and stored.
\<close>

theorem window_start_equal_end_is_stored:
  "map (\<lambda>r. (cs_start_time r, cs_end_time r))
     (chat_settings
        (handle_waiting_time quiet_world Waiting_time_start (Some (- 1001)) (ascii ''05:00'')
           (add_chat (clock 2 12 0) (- 1001) empty_db))) =
   [(ascii ''05:00'', ascii ''05:00'')]"
  by (simp add: handle_waiting_time_def is_valid_time_0500 update_start_time_def
      update_chat_settings_def quiet_world_def add_chat_def empty_db_def)

text \<open>
  Claim C2, amended. Two checks stand between the user's text and the store: a chat must
  be selected for the user (\<^verbatim>\<open>if target_chat_id:\<close>, false for no chat and for the chat id
  0), and the text must pass \<^verbatim>\<open>is_valid_time\<close>. When either fails nothing is written. A
  text that passes becomes the start time (or the end time) of the selected chat whatever
  the other end of the window is, so also when the two are then equal.
\<close>

theorem window_write_checks_the_format_only:
  assumes "get_chat_settings c d = Some r" and "\<not> raises w (UpdateSettings c)" and "c \<noteq> 0"
  shows "(is_valid_time w t \<longrightarrow>
            get_chat_settings c (handle_waiting_time w Waiting_time_start (Some c) t d) =
              Some (r\<lparr>cs_start_time := t\<rparr>) \<and>
            get_chat_settings c (handle_waiting_time w Waiting_time_end (Some c) t d) =
              Some (r\<lparr>cs_end_time := t\<rparr>)) \<and>
         (\<not> is_valid_time w t \<longrightarrow> handle_waiting_time w st target t d = d) \<and>
         handle_waiting_time w st None t d = d \<and>
         handle_waiting_time w st (Some 0) t d = d"
  using assms
  by (simp add: handle_waiting_time_def update_start_time_def update_end_time_def
      get_chat_settings_update_chat_settings split: option.splits)

theorem window_write_checks_the_format_only_witness:
  "is_valid_time quiet_world (ascii ''05:00'') \<and>
   map_option (\<lambda>r. (cs_start_time r, cs_end_time r))
     (get_chat_settings (- 1001)
        (handle_waiting_time quiet_world Waiting_time_start (Some (- 1001)) (ascii ''05:00'')
           (add_chat (clock 2 12 0) (- 1001) empty_db))) =
     Some (ascii ''05:00'', ascii ''05:00'') \<and>
   is_valid_time quiet_world [1637, 58, 1632] \<and>
   map_option (\<lambda>r. (cs_start_time r, cs_end_time r))
     (get_chat_settings (- 1001)
        (handle_waiting_time quiet_world Waiting_time_end (Some (- 1001)) [1637, 58, 1632]
           (add_chat (clock 2 12 0) (- 1001) empty_db))) =
     Some (ascii ''23:00'', [1637, 58, 1632]) \<and>
   \<not> is_valid_time quiet_world (ascii ''25:00'') \<and>
   handle_waiting_time quiet_world Waiting_time_start (Some (- 1001)) (ascii ''25:00'')
     (add_chat (clock 2 12 0) (- 1001) empty_db) = add_chat (clock 2 12 0) (- 1001) empty_db \<and>
   handle_waiting_time quiet_world Waiting_time_start (Some 0) (ascii ''05:00'')
     (add_chat (clock 2 12 0) (- 1001) empty_db) = add_chat (clock 2 12 0) (- 1001) empty_db"
proof -
  let ?d = "add_chat (clock 2 12 0) (- 1001) empty_db"
  obtain r where r: "get_chat_settings (- 1001) ?d = Some r"
    "cs_start_time r = ascii ''23:00''" "cs_end_time r = ascii ''05:00''"
    by (simp add: get_chat_settings_def add_chat_def empty_db_def)
  have q: "\<not> raises quiet_world (UpdateSettings (- 1001))"
    by (simp add: quiet_world_def)
  have nz: "(- 1001 :: int) \<noteq> 0" by simp
  note inst = window_write_checks_the_format_only [OF r(1) q nz]
  from inst [where t = "ascii ''05:00''"] is_valid_time_0500 [of quiet_world] r(3)
  have one: "map_option (\<lambda>r. (cs_start_time r, cs_end_time r))
     (get_chat_settings (- 1001)
        (handle_waiting_time quiet_world Waiting_time_start (Some (- 1001)) (ascii ''05:00'') ?d)) =
     Some (ascii ''05:00'', ascii ''05:00'')"
    by simp
  from inst [where t = "[1637, 58, 1632]"] is_valid_time_arabic_indic r(2)
  have two: "map_option (\<lambda>r. (cs_start_time r, cs_end_time r))
     (get_chat_settings (- 1001)
        (handle_waiting_time quiet_world Waiting_time_end (Some (- 1001)) [1637, 58, 1632] ?d)) =
     Some (ascii ''23:00'', [1637, 58, 1632])"
    by simp
  from inst [where t = "ascii ''25:00''" and st = Waiting_time_start
      and target = "Some (- 1001)"] is_valid_time_2500 [of quiet_world]
  have three: "handle_waiting_time quiet_world Waiting_time_start (Some (- 1001))
      (ascii ''25:00'') ?d = ?d"
    by simp
  from inst [where t = "ascii ''05:00''" and st = Waiting_time_start]
  have four: "handle_waiting_time quiet_world Waiting_time_start (Some 0) (ascii ''05:00'') ?d = ?d"
    by simp
  from one two three four is_valid_time_0500 [of quiet_world] is_valid_time_arabic_indic
    is_valid_time_2500 [of quiet_world]
  show ?thesis by (intro conjI)
qed

section \<open>A tick leaves the other chats alone\<close>

lemma keyedD:
  assumes "keyed d"
  shows "distinct (map cs_chat_id (chat_settings d))"
    and "\<And>s. s \<in> set (night_sessions d) \<Longrightarrow>
           takeWhile (\<lambda>c. c \<noteq> 95) (ns_session_id s) = str_int (ns_chat_id s)"
  using assms by (auto simp: keyed_def list_all_iff)

lemma keyedI:
  assumes "distinct (map cs_chat_id (chat_settings d))"
    and "\<And>s. s \<in> set (night_sessions d) \<Longrightarrow>
           takeWhile (\<lambda>c. c \<noteq> 95) (ns_session_id s) = str_int (ns_chat_id s)"
  shows "keyed d"
  using assms by (auto simp: keyed_def list_all_iff)

lemma consistent_keyed: "consistent d \<Longrightarrow> keyed d"
  by (simp add: consistent_def keyed_def)

lemma keyed_cong:
  "map cs_chat_id (chat_settings d') = map cs_chat_id (chat_settings d) \<Longrightarrow>
   night_sessions d' = night_sessions d \<Longrightarrow> keyed d' = keyed d"
  by (simp add: keyed_def)

lemma keyed_insert_or_replace_session:
  assumes "keyed d" and "takeWhile (\<lambda>c. c \<noteq> 95) (ns_session_id new) = str_int (ns_chat_id new)"
  shows "keyed (insert_or_replace_session new d)"
  using assms by (auto simp: keyed_def list_all_iff)

lemma keyed_activate_chat: "keyed (activate_chat c date d) = keyed d"
  by (rule keyed_cong) simp_all

lemma keyed_deactivate_chat: "keyed (deactivate_chat c d) = keyed d"
  by (rule keyed_cong) simp_all

lemma keyed_complete_session: "keyed d \<Longrightarrow> keyed (complete_session sid n d)"
  by (auto simp: keyed_def list_all_iff complete_session_def)

lemma sessions_of_cong:
  "night_sessions d' = night_sessions d \<Longrightarrow> sessions_of c d' = sessions_of c d"
  by (simp add: sessions_of_def)

lemma sessions_of_mem:
  "s \<in> set (sessions_of c d) \<longleftrightarrow> s \<in> set (night_sessions d) \<and> ns_chat_id s = c"
  by (auto simp: sessions_of_def)

lemma open_sessions_sessions_of:
  "open_sessions c d = filter (\<lambda>s. \<not> ns_is_completed s) (sessions_of c d)"
  by (simp add: open_sessions_def sessions_of_def conj_commute)

text \<open>A session id of one chat is the id of no row of another chat.\<close>

lemma other_chat_other_id:
  assumes "keyed d" and "takeWhile (\<lambda>c. c \<noteq> 95) sid = str_int c0" and "c \<noteq> c0"
    and "s \<in> set (sessions_of c d)"
  shows "ns_session_id s \<noteq> sid"
proof
  assume "ns_session_id s = sid"
  with keyedD(2) [OF assms(1), of s] assms(2,4) have "str_int (ns_chat_id s) = str_int c0"
    by (simp add: sessions_of_mem)
  then have "ns_chat_id s = c0" by (rule str_int_inj)
  with assms(3,4) show False by (simp add: sessions_of_mem)
qed

lemma sessions_of_other_insert:
  assumes "keyed d" and "takeWhile (\<lambda>c. c \<noteq> 95) (ns_session_id new) = str_int c0"
    and "ns_chat_id new = c0" and "c \<noteq> c0"
  shows "sessions_of c (insert_or_replace_session new d) = sessions_of c d"
proof -
  have "sessions_of c (insert_or_replace_session new d) =
      filter (\<lambda>s. ns_session_id s \<noteq> ns_session_id new) (sessions_of c d)"
    using assms(3,4) by (auto simp: sessions_of_def intro: filter_cong)
  also have "\<dots> = sessions_of c d"
    using other_chat_other_id [OF assms(1,2,4)] by (simp add: filter_id_conv)
  finally show ?thesis .
qed

lemma sessions_of_other_complete:
  assumes "keyed d" and "takeWhile (\<lambda>c. c \<noteq> 95) sid = str_int c0" and "c \<noteq> c0"
  shows "sessions_of c (complete_session sid n d) = sessions_of c d"
proof -
  let ?f = "\<lambda>s. if ns_session_id s = sid
                 then s\<lparr>ns_is_completed := True, ns_message_count := n\<rparr> else s"
  have "filter (\<lambda>s. ns_chat_id s = c) (map ?f xs) = map ?f (filter (\<lambda>s. ns_chat_id s = c) xs)" for xs
    by (induction xs) simp_all
  then have "sessions_of c (complete_session sid n d) = map ?f (sessions_of c d)"
    by (simp add: sessions_of_def complete_session_def)
  also have "\<dots> = sessions_of c d"
    using other_chat_other_id [OF assms] by (simp add: map_idI)
  finally show ?thesis .
qed

lemma selected_session_id:
  assumes "keyed d" and "select_open_session c d = Some sid"
  shows "takeWhile (\<lambda>c. c \<noteq> 95) sid = str_int c"
proof -
  obtain s where "s \<in> set (open_sessions c d)" "ns_session_id s = sid"
    using select_open_session_Some [OF assms(2)] by auto
  with keyedD(2) [OF assms(1), of s] show ?thesis by (simp add: open_sessions_mem)
qed

text \<open>The states \<^verbatim>\<open>end_night_mode\<close> and one row of the loop can end in, whatever raises.\<close>

lemma end_night_mode_cases:
  "fst (end_night_mode w c d) = d \<or>
   (\<exists>sid n. select_open_session c d = Some sid \<and>
      (fst (end_night_mode w c d) = complete_session sid n d \<or>
       fst (end_night_mode w c d) = deactivate_chat c (complete_session sid n d)))"
  by (auto simp: end_night_mode_def Let_def split: option.splits)

lemma chat_cases:
  "fst (snd (background_time_check_chat w now row d)) = d \<or>
   fst (snd (background_time_check_chat w now row d)) = fst (end_night_mode w (cs_chat_id row) d) \<or>
   fst (snd (background_time_check_chat w now row d)) =
     insert_or_replace_session
       \<lparr>ns_session_id = str_int (cs_chat_id row) @ ascii ''_'' @ strftime_Ymd_HM now,
        ns_chat_id = cs_chat_id row, ns_start_time = isoformat now,
        ns_end_time = cs_end_time row, ns_message_count = 0, ns_is_completed = False\<rparr> d \<or>
   fst (snd (background_time_check_chat w now row d)) =
     activate_chat (cs_chat_id row) (strftime_Ymd now)
       (insert_or_replace_session
          \<lparr>ns_session_id = str_int (cs_chat_id row) @ ascii ''_'' @ strftime_Ymd_HM now,
           ns_chat_id = cs_chat_id row, ns_start_time = isoformat now,
           ns_end_time = cs_end_time row, ns_message_count = 0, ns_is_completed = False\<rparr> d)"
  by (simp add: background_time_check_chat_def Let_def split: prod.splits)

lemma keyed_end_night_mode: "keyed d \<Longrightarrow> keyed (fst (end_night_mode w c d))"
  using end_night_mode_cases [of w c d]
  by (auto simp: keyed_complete_session keyed_deactivate_chat)

lemma keyed_chat: "keyed d \<Longrightarrow> keyed (fst (snd (background_time_check_chat w now row d)))"
  using chat_cases [of w now row d]
  by (auto simp: keyed_end_night_mode keyed_activate_chat keyed_insert_or_replace_session
      session_id_prefix)

lemma sessions_of_other_end_night_mode:
  assumes "keyed d" and "c \<noteq> c0"
  shows "sessions_of c (fst (end_night_mode w c0 d)) = sessions_of c d"
  using end_night_mode_cases [of w c0 d] assms
  by (auto simp: sessions_of_other_complete selected_session_id
      sessions_of_cong [of "deactivate_chat c0 _"])

lemma sessions_of_other_chat:
  assumes "keyed d" and "c \<noteq> cs_chat_id row"
  shows "sessions_of c (fst (snd (background_time_check_chat w now row d))) = sessions_of c d"
proof -
  let ?new = "\<lparr>ns_session_id = str_int (cs_chat_id row) @ ascii ''_'' @ strftime_Ymd_HM now,
        ns_chat_id = cs_chat_id row, ns_start_time = isoformat now,
        ns_end_time = cs_end_time row, ns_message_count = 0, ns_is_completed = False\<rparr>"
  have ins: "sessions_of c (insert_or_replace_session ?new d) = sessions_of c d"
    using assms by (intro sessions_of_other_insert [where ?c0.0 = "cs_chat_id row"])
      (simp_all add: session_id_prefix)
  have act: "sessions_of c (activate_chat (cs_chat_id row) (strftime_Ymd now)
      (insert_or_replace_session ?new d)) = sessions_of c (insert_or_replace_session ?new d)"
    by (rule sessions_of_cong) simp
  from chat_cases [of w now row d] show ?thesis
    using assms ins act by (auto simp: sessions_of_other_end_night_mode)
qed

lemma keyed_chats: "keyed d \<Longrightarrow> keyed (fst (snd (background_time_check_chats w now rows d)))"
proof (induction rows arbitrary: d)
  case Nil
  then show ?case by simp
next
  case (Cons row rows)
  obtain e d1 calls where b: "background_time_check_chat w now row d = (e, d1, calls)"
    by (cases "background_time_check_chat w now row d")
  have k1: "keyed d1" using keyed_chat [OF Cons.prems, of w now row] b by simp
  show ?case
  proof (cases e)
    case None
    with b Cons.IH [OF k1] show ?thesis by (auto split: prod.splits)
  next
    case (Some x)
    with b k1 show ?thesis by simp
  qed
qed

lemma keyed_tick: "keyed d \<Longrightarrow> keyed (fst (background_time_check_tick w now d))"
  using keyed_chats [of d w now "select_enabled_chats d"]
  by (auto simp: background_time_check_tick_def split: prod.splits)

lemma keyed_update_chat_settings:
  assumes "keyed d" and "\<And>r. cs_chat_id (f r) = cs_chat_id r"
  shows "keyed (update_chat_settings w c f d)"
proof -
  have "map cs_chat_id (map (\<lambda>r. if cs_chat_id r = c then f r else r) (chat_settings d)) =
      map cs_chat_id (chat_settings d)"
    by (simp add: assms(2) comp_def)
  then have "keyed (d\<lparr>chat_settings := map (\<lambda>r. if cs_chat_id r = c then f r else r) (chat_settings d)\<rparr>) =
      keyed d"
    by (intro keyed_cong) simp_all
  with assms(1) show ?thesis by (simp add: update_chat_settings_def)
qed

lemma keyed_add_chat: "keyed d \<Longrightarrow> keyed (add_chat now c d)"
  by (auto simp: keyed_def add_chat_def distinct_insort_key distinct_map_filter)

lemma keyed_handle_group_message:
  "keyed d \<Longrightarrow> keyed (handle_group_message w now t u c mid ty d)"
proof -
  have s: "keyed (save_message w now c mid u t ty S d) = keyed d" for S
    by (rule keyed_cong) (simp_all add: save_message_def)
  assume "keyed d"
  then show ?thesis
    by (simp add: handle_group_message_def keyed_end_night_mode s split: option.splits)
qed

lemma reachable_keyed: "reachable ok again d \<Longrightarrow> keyed d"
proof (induction rule: reachable.induct)
  case r_initial
  show ?case by (simp add: keyed_def empty_db_def)
next
  case (r_registered d c now)
  then show ?case by (simp add: keyed_add_chat)
next
  case (r_enabled d w c)
  then show ?case by (simp add: enable_night_mode_def keyed_update_chat_settings)
next
  case (r_disabled d w c)
  then show ?case by (simp add: disable_night_mode_def keyed_update_chat_settings)
next
  case (r_welcome d w c t)
  then show ?case by (simp add: update_welcome_message_def keyed_update_chat_settings)
next
  case (r_window d w st c t)
  then show ?case
    by (simp add: handle_waiting_time_def update_start_time_def update_end_time_def
        keyed_update_chat_settings split: waiting_time.splits option.splits)
next
  case (r_tick d w now)
  then show ?case by (simp add: keyed_tick)
next
  case (r_group_message d w now t u c mid ty)
  then show ?case by (simp add: keyed_handle_group_message)
qed

text \<open>
  Rows of other chats, and rows for which neither condition of the loop holds, leave a
  chat's settings row and its sessions as they are, whatever raises.
\<close>

lemma chats_frame:
  assumes "\<And>row. row \<in> set rows \<Longrightarrow> cs_chat_id row \<noteq> c \<or>
      ((strftime_HM now = cs_start_time row \<longrightarrow> cs_is_night_mode_active row) \<and>
       (strftime_HM now = cs_end_time row \<longrightarrow> \<not> cs_is_night_mode_active row))"
  shows "keyed d \<Longrightarrow>
    sessions_of c (fst (snd (background_time_check_chats w now rows d))) = sessions_of c d \<and>
    get_chat_settings c (fst (snd (background_time_check_chats w now rows d))) =
      get_chat_settings c d"
  using assms
proof (induction rows arbitrary: d)
  case Nil
  then show ?case by simp
next
  case (Cons row rows)
  obtain e d1 calls where b: "background_time_check_chat w now row d = (e, d1, calls)"
    by (cases "background_time_check_chat w now row d")
  have k1: "keyed d1" using keyed_chat [OF Cons.prems(1), of w now row] b by simp
  have same: "sessions_of c d1 = sessions_of c d \<and> get_chat_settings c d1 = get_chat_settings c d"
  proof (cases "cs_chat_id row = c")
    case True
    with Cons.prems(2) [of row]
    have "(strftime_HM now = cs_start_time row \<longrightarrow> cs_is_night_mode_active row) \<and>
       (strftime_HM now = cs_end_time row \<longrightarrow> \<not> cs_is_night_mode_active row)"
      by simp
    then have "background_time_check_chat w now row d = (None, d, [])"
      by (intro chat_idles) simp_all
    with b show ?thesis by simp
  next
    case False
    then have "c \<noteq> cs_chat_id row" by simp
    with sessions_of_other_chat [OF Cons.prems(1) this, of w now]
      get_chat_settings_other_chat [of c row w now d] b
    show ?thesis by simp
  qed
  show ?case
  proof (cases e)
    case None
    have "sessions_of c (fst (snd (background_time_check_chats w now rows d1))) = sessions_of c d1 \<and>
      get_chat_settings c (fst (snd (background_time_check_chats w now rows d1))) =
        get_chat_settings c d1"
      using k1 Cons.prems(2) by (intro Cons.IH) simp_all
    with None b same show ?thesis by (auto split: prod.splits)
  next
    case (Some x)
    with b same show ?thesis by simp
  qed
qed

section \<open>A tick at the start time of a chat already in night mode\<close>

lemma degenerate_db_eval:
  "degenerate_db =
    \<lparr>chat_settings =
       [\<lparr>cs_chat_id = - 1001, cs_chat_title = None, cs_night_mode_enabled = True,
         cs_start_time = ascii ''23:00'', cs_end_time = ascii ''23:00'',
         cs_welcome_message = default_welcome_message, cs_is_active = True,
         cs_added_date = Some (isoformat (clock 2 12 0)),
         cs_last_notification_date = Some (strftime_Ymd (clock 2 23 0)),
         cs_is_night_mode_active = True\<rparr>],
     night_sessions =
       [\<lparr>ns_session_id = ascii ''-1001_20240302_2300'', ns_chat_id = - 1001,
         ns_start_time = isoformat (clock 2 23 0), ns_end_time = ascii ''23:00'',
         ns_message_count = 0, ns_is_completed = False\<rparr>],
     saved_messages = []\<rparr>"
proof -
  have v: "is_valid_time w [50, 51, 58, 48, 48]" for w
    by (simp add: is_valid_time_def is_digit_def)
  show ?thesis
    by (simp add: degenerate_db_def quiet_world_def background_time_check_tick_def
      background_time_check_chat_def select_enabled_chats_def enable_night_mode_def
      handle_waiting_time_def v update_end_time_def
      update_chat_settings_def add_chat_def empty_db_def insert_or_replace_session_def
      activate_chat_def send_message_def Let_def strftime_HM_23 strftime_Ymd_HM_23 str_int_1001
      ascii_def)
qed

text \<open>
  Claim C8 fails when the window is degenerate, which the source allows: the chat's flag
  is set and the clock shows its start time 23:00, which is also its end time; the tick
  takes the closing branch and completes the session.
\<close>

theorem tick_at_start_time_closes_degenerate_window:
  "map (\<lambda>r. (cs_is_night_mode_active r, cs_start_time r = strftime_HM (clock 3 23 0)))
     (chat_settings degenerate_db) = [(True, True)] \<and>
   map ns_is_completed (night_sessions degenerate_db) = [False] \<and>
   map ns_is_completed
     (night_sessions (fst (background_time_check_tick quiet_world (clock 3 23 0) degenerate_db))) =
     [True] \<and>
   map cs_is_night_mode_active
     (chat_settings (fst (background_time_check_tick quiet_world (clock 3 23 0) degenerate_db))) =
     [False]"
  by (simp add: degenerate_db_eval quiet_world_def background_time_check_tick_def
      background_time_check_chat_def select_enabled_chats_def end_night_mode_def
      select_open_session_def open_sessions_def select_messages_def get_chat_settings_def
      complete_session_def deactivate_chat_def send_message_def Let_def strftime_HM_23_next
      ascii_def)

text \<open>
  Claim C8, amended. In a reachable state, for a chat whose flag is set, at a tick whose
  time of day is the chat's start time and not its end time: the chat's row of the loop
  does nothing, and the whole tick, whatever raises in it, leaves the chat's settings row,
  the chat's rows of the ledger (with their message counts) and the retention store
  unchanged.
\<close>

theorem tick_at_start_time_of_active_chat:
  assumes "reachable ok again d" and "get_chat_settings c d = Some r"
    and "cs_is_night_mode_active r" and "strftime_HM now = cs_start_time r"
    and "cs_end_time r \<noteq> cs_start_time r"
  shows "background_time_check_chat w now r d0 = (None, d0, []) \<and>
         get_chat_settings c (fst (background_time_check_tick w now d)) = Some r \<and>
         sessions_of c (fst (background_time_check_tick w now d)) = sessions_of c d \<and>
         saved_messages (fst (background_time_check_tick w now d)) = saved_messages d"
proof -
  from assms(1) have k: "keyed d" by (rule reachable_keyed)
  have idle: "(strftime_HM now = cs_start_time r \<longrightarrow> cs_is_night_mode_active r) \<and>
       (strftime_HM now = cs_end_time r \<longrightarrow> \<not> cs_is_night_mode_active r)"
    using assms(3,4,5) by simp
  then have row: "background_time_check_chat w now r d0 = (None, d0, [])"
    by (intro chat_idles) simp_all
  have rows: "cs_chat_id row \<noteq> c \<or>
      ((strftime_HM now = cs_start_time row \<longrightarrow> cs_is_night_mode_active row) \<and>
       (strftime_HM now = cs_end_time row \<longrightarrow> \<not> cs_is_night_mode_active row))"
    if "row \<in> set (select_enabled_chats d)" for row
  proof (cases "cs_chat_id row = c")
    case True
    from that have "row \<in> set (chat_settings d)" by (simp add: select_enabled_chats_def)
    with keyedD(1) [OF k] have "get_chat_settings (cs_chat_id row) d = Some row"
      by (simp add: get_chat_settings_def find_distinct_key)
    with True assms(2) have "row = r" by simp
    with idle show ?thesis by simp
  next
    case False
    then show ?thesis by simp
  qed
  have frame: "sessions_of c (fst (background_time_check_tick w now d)) = sessions_of c d \<and>
      get_chat_settings c (fst (background_time_check_tick w now d)) = get_chat_settings c d"
    using chats_frame [of "select_enabled_chats d" c now d w, OF rows k]
    by (auto simp: background_time_check_tick_def split: prod.splits)
  from row frame assms(2) show ?thesis by (simp add: saved_messages_tick)
qed

theorem tick_at_start_time_of_active_chat_witness:
  "background_time_check_tick quiet_world (clock 3 23 0) night_db = (night_db, []) \<and>
   map_option cs_is_night_mode_active
     (get_chat_settings (- 1001) (fst (background_time_check_tick quiet_world (clock 3 23 0) night_db))) =
     Some True \<and>
   sessions_of (- 1001) (fst (background_time_check_tick quiet_world (clock 3 23 0) night_db)) =
     sessions_of (- 1001) night_db \<and>
   saved_messages (fst (background_time_check_tick quiet_world (clock 3 23 0) night_db)) =
     saved_messages night_db"
proof -
  obtain r where r: "get_chat_settings (- 1001) night_db = Some r" "cs_is_night_mode_active r"
    "cs_start_time r = ascii ''23:00''" "cs_end_time r = ascii ''05:00''"
    "select_enabled_chats night_db = [r]"
    by (simp add: get_chat_settings_def night_db_eval select_enabled_chats_def)
  have t: "strftime_HM (clock 3 23 0) = cs_start_time r"
    by (simp add: r(3) strftime_HM_23_next ascii_def)
  have ne: "cs_end_time r \<noteq> cs_start_time r"
    by (simp add: r(3,4) ascii_def)
  have reach: "reachable any_world True night_db"
    by (rule reachable_night_db) (simp add: any_world_def)
  note inst = tick_at_start_time_of_active_chat [OF reach r(1,2) t ne, of quiet_world night_db]
  have "background_time_check_tick quiet_world (clock 3 23 0) night_db = (night_db, [])"
    using inst by (simp add: background_time_check_tick_def quiet_world_def r(5))
  with inst r(2) show ?thesis by simp
qed

section \<open>Which failures end the loop of a tick\<close>

lemma chats_append:
  "background_time_check_chats w now (xs @ ys) d =
     (case background_time_check_chats w now xs d of
        (Some e, d1, calls1) \<Rightarrow> (Some e, d1, calls1)
      | (None, d1, calls1) \<Rightarrow>
          (case background_time_check_chats w now ys d1 of
             (e, d2, calls2) \<Rightarrow> (e, d2, calls1 @ calls2)))"
proof (induction xs arbitrary: d)
  case Nil
  show ?case by (simp split: prod.splits)
next
  case (Cons row xs)
  show ?case
    by (simp add: Cons.IH split: prod.splits option.splits)
qed

lemma chat_raises_only_when_opening:
  assumes "\<not> raises w (InsertSession (cs_chat_id row))"
    and "\<not> raises w (ActivateChat (cs_chat_id row))"
    and "\<not> raises w (CommitOpen (cs_chat_id row))"
  shows "fst (background_time_check_chat w now row d) = None"
  using assms by (simp add: background_time_check_chat_def Let_def split: prod.splits)

lemma chats_raise_only_when_opening:
  assumes "\<And>row. row \<in> set rows \<Longrightarrow>
      \<not> raises w (InsertSession (cs_chat_id row)) \<and>
      \<not> raises w (ActivateChat (cs_chat_id row)) \<and>
      \<not> raises w (CommitOpen (cs_chat_id row))"
  shows "fst (background_time_check_chats w now rows d) = None"
  using assms
proof (induction rows arbitrary: d)
  case Nil
  show ?case by simp
next
  case (Cons row rows)
  obtain e d1 calls where b: "background_time_check_chat w now row d = (e, d1, calls)"
    by (cases "background_time_check_chat w now row d")
  have "fst (background_time_check_chat w now row d) = None"
    using Cons.prems [of row] by (intro chat_raises_only_when_opening) simp_all
  with b have e: "e = None" by simp
  have "fst (background_time_check_chats w now rows d1) = None"
    using Cons.prems by (intro Cons.IH) simp
  with b e show ?case by (auto split: prod.splits)
qed

lemma str_int_1002: "str_int (- 1002) = [45, 49, 48, 48, 50]"
  by (simp add: str_int_def str_nat.simps)

lemma two_chats_db_eval:
  "two_chats_db =
    \<lparr>chat_settings =
       [\<lparr>cs_chat_id = - 1002, cs_chat_title = None, cs_night_mode_enabled = True,
         cs_start_time = ascii ''23:00'', cs_end_time = ascii ''05:00'',
         cs_welcome_message = default_welcome_message, cs_is_active = True,
         cs_added_date = Some (isoformat (clock 2 12 0)), cs_last_notification_date = None,
         cs_is_night_mode_active = False\<rparr>,
        \<lparr>cs_chat_id = - 1001, cs_chat_title = None, cs_night_mode_enabled = True,
         cs_start_time = ascii ''23:00'', cs_end_time = ascii ''05:00'',
         cs_welcome_message = default_welcome_message, cs_is_active = True,
         cs_added_date = Some (isoformat (clock 2 12 0)), cs_last_notification_date = None,
         cs_is_night_mode_active = False\<rparr>],
     night_sessions = [], saved_messages = []\<rparr>"
  by (simp add: two_chats_db_def quiet_world_def enable_night_mode_def update_chat_settings_def
      add_chat_def empty_db_def)

lemma two_nights_db_eval:
  "two_nights_db =
    \<lparr>chat_settings =
       [\<lparr>cs_chat_id = - 1002, cs_chat_title = None, cs_night_mode_enabled = True,
         cs_start_time = ascii ''23:00'', cs_end_time = ascii ''05:00'',
         cs_welcome_message = default_welcome_message, cs_is_active = True,
         cs_added_date = Some (isoformat (clock 2 12 0)),
         cs_last_notification_date = Some (strftime_Ymd (clock 2 23 0)),
         cs_is_night_mode_active = True\<rparr>,
        \<lparr>cs_chat_id = - 1001, cs_chat_title = None, cs_night_mode_enabled = True,
         cs_start_time = ascii ''23:00'', cs_end_time = ascii ''05:00'',
         cs_welcome_message = default_welcome_message, cs_is_active = True,
         cs_added_date = Some (isoformat (clock 2 12 0)),
         cs_last_notification_date = Some (strftime_Ymd (clock 2 23 0)),
         cs_is_night_mode_active = True\<rparr>],
     night_sessions =
       [\<lparr>ns_session_id = ascii ''-1002_20240302_2300'', ns_chat_id = - 1002,
         ns_start_time = isoformat (clock 2 23 0), ns_end_time = ascii ''05:00'',
         ns_message_count = 0, ns_is_completed = False\<rparr>,
        \<lparr>ns_session_id = ascii ''-1001_20240302_2300'', ns_chat_id = - 1001,
         ns_start_time = isoformat (clock 2 23 0), ns_end_time = ascii ''05:00'',
         ns_message_count = 0, ns_is_completed = False\<rparr>],
     saved_messages = []\<rparr>"
  by (simp add: two_nights_db_def two_chats_db_eval quiet_world_def background_time_check_tick_def
      background_time_check_chat_def select_enabled_chats_def insert_or_replace_session_def
      activate_chat_def send_message_def Let_def strftime_HM_23 strftime_Ymd_HM_23 str_int_1001
      str_int_1002 ascii_def)

text \<open>
  Claim C5 fails for the opening branch: both chats are due to open at 23:00; the INSERT
  for the first one raises, the exception leaves the \<^verbatim>\<open>for\<close> loop, and the second chat,
  which the same tick would have opened, is left as it was.
\<close>

theorem store_error_when_opening_skips_remaining_chats:
  "map cs_chat_id (select_enabled_chats two_chats_db) = [- 1002, - 1001] \<and>
   map cs_is_night_mode_active
     (chat_settings (fst (background_time_check_tick quiet_world (clock 2 23 0) two_chats_db))) =
     [True, True] \<and>
   fst (background_time_check_chats broken_world (clock 2 23 0)
          (select_enabled_chats two_chats_db) two_chats_db) = Some StoreError \<and>
   background_time_check_tick broken_world (clock 2 23 0) two_chats_db = (two_chats_db, [])"
proof -
  have a: "map cs_chat_id (select_enabled_chats two_chats_db) = [- 1002, - 1001]"
    by (simp add: select_enabled_chats_def two_chats_db_eval)
  have b: "map cs_is_night_mode_active
     (chat_settings (fst (background_time_check_tick quiet_world (clock 2 23 0) two_chats_db))) =
     [True, True]"
    using two_nights_db_eval by (simp add: two_nights_db_def)
  have c: "background_time_check_chats broken_world (clock 2 23 0)
          (select_enabled_chats two_chats_db) two_chats_db = (Some StoreError, two_chats_db, [])"
    by (simp add: select_enabled_chats_def two_chats_db_eval background_time_check_chat_def
        broken_world_def quiet_world_def Let_def strftime_HM_23 ascii_def)
  have d: "background_time_check_tick broken_world (clock 2 23 0) two_chats_db = (two_chats_db, [])"
    by (simp add: background_time_check_tick_def c)
  from a b c d show ?thesis by simp
qed

text \<open>
  Claim C5, amended. While the loop of a tick works through the chats \<open>rows\<close>, a remote
  call that fails and a store statement that raises inside \<^verbatim>\<open>end_night_mode\<close> never end
  the loop: if none of the three store statements of the opening branch raises for these
  chats, the loop passes them without an exception and goes on with the remaining chats
  \<open>rest\<close> from the state it has reached. (A raise of one of those three statements ends
  the loop, and the remaining chats wait for the next tick.)
\<close>

theorem only_opening_failures_end_the_loop:
  assumes "\<forall>row \<in> set rows.
      \<not> raises w (InsertSession (cs_chat_id row)) \<and>
      \<not> raises w (ActivateChat (cs_chat_id row)) \<and>
      \<not> raises w (CommitOpen (cs_chat_id row))"
  shows "fst (background_time_check_chats w now rows d) = None \<and>
         background_time_check_chats w now (rows @ rest) d =
           (case background_time_check_chats w now rows d of
              (e, d1, calls1) \<Rightarrow>
                (case background_time_check_chats w now rest d1 of
                   (e2, d2, calls2) \<Rightarrow> (e2, d2, calls1 @ calls2)))"
proof -
  have none: "fst (background_time_check_chats w now rows d) = None"
    using assms by (intro chats_raise_only_when_opening) simp
  then show ?thesis
    by (auto simp: chats_append split: prod.splits option.splits)
qed

theorem only_opening_failures_end_the_loop_witness:
  "map cs_chat_id (select_enabled_chats two_nights_db) = [- 1002, - 1001] \<and>
   fst (background_time_check_chats failing_world (clock 3 5 0)
          (take 1 (select_enabled_chats two_nights_db)) two_nights_db) = None \<and>
   map (\<lambda>r. (cs_chat_id r, cs_is_night_mode_active r))
     (chat_settings (fst (background_time_check_tick failing_world (clock 3 5 0) two_nights_db))) =
     [(- 1002, True), (- 1001, False)]"
proof -
  have a: "map cs_chat_id (select_enabled_chats two_nights_db) = [- 1002, - 1001]"
    by (simp add: select_enabled_chats_def two_nights_db_eval)
  have h: "\<forall>row \<in> set (take 1 (select_enabled_chats two_nights_db)).
      \<not> raises failing_world (InsertSession (cs_chat_id row)) \<and>
      \<not> raises failing_world (ActivateChat (cs_chat_id row)) \<and>
      \<not> raises failing_world (CommitOpen (cs_chat_id row))"
    by (simp add: failing_world_def)
  have c: "map (\<lambda>r. (cs_chat_id r, cs_is_night_mode_active r))
     (chat_settings (fst (background_time_check_tick failing_world (clock 3 5 0) two_nights_db))) =
     [(- 1002, True), (- 1001, False)]"
    by (simp add: two_nights_db_eval failing_world_def background_time_check_tick_def
      background_time_check_chat_def select_enabled_chats_def end_night_mode_def
      select_open_session_def open_sessions_def select_messages_def get_chat_settings_def
      complete_session_def deactivate_chat_def send_message_def Let_def strftime_HM_05 ascii_def)
  from only_opening_failures_end_the_loop [OF h, of "clock 3 5 0" two_nights_db "[]"] a c
  show ?thesis by simp
qed

section \<open>A window is opened and closed by equality of the time of day\<close>

text \<open>
  When nothing raises, the loop reaches the row of a chat in a state that shows the chat
  as the state before the loop did, and what the loop leaves of the chat is what that row
  made of it.
\<close>

lemma chats_own_row:
  assumes "no_faults w"
  shows "keyed d \<Longrightarrow> distinct (map cs_chat_id rows) \<Longrightarrow> r \<in> set rows \<Longrightarrow>
    \<exists>d0. sessions_of (cs_chat_id r) d0 = sessions_of (cs_chat_id r) d \<and>
         get_chat_settings (cs_chat_id r) d0 = get_chat_settings (cs_chat_id r) d \<and>
         sessions_of (cs_chat_id r) (fst (snd (background_time_check_chats w now rows d))) =
           sessions_of (cs_chat_id r) (fst (snd (background_time_check_chat w now r d0))) \<and>
         get_chat_settings (cs_chat_id r) (fst (snd (background_time_check_chats w now rows d))) =
           get_chat_settings (cs_chat_id r) (fst (snd (background_time_check_chat w now r d0)))"
proof (induction rows arbitrary: d)
  case Nil
  then show ?case by simp
next
  case (Cons row rows)
  let ?c = "cs_chat_id r"
  obtain e d1 calls where b: "background_time_check_chat w now row d = (e, d1, calls)"
    by (cases "background_time_check_chat w now row d")
  have e: "e = None" using chat_no_exception [OF assms, of now row d] b by simp
  have k1: "keyed d1" using keyed_chat [OF Cons.prems(1), of w now row] b by simp
  have rest: "background_time_check_chats w now (row # rows) d =
      (fst (background_time_check_chats w now rows d1),
       fst (snd (background_time_check_chats w now rows d1)),
       calls @ snd (snd (background_time_check_chats w now rows d1)))"
    using b e by (simp split: prod.splits)
  show ?case
  proof (cases "row = r")
    case True
    from Cons.prems(2) True have "\<And>row'. row' \<in> set rows \<Longrightarrow> cs_chat_id row' \<noteq> ?c"
      by (metis distinct.simps(2) imageI list.simps(9) set_map)
    then have "sessions_of ?c (fst (snd (background_time_check_chats w now rows d1))) =
        sessions_of ?c d1 \<and>
      get_chat_settings ?c (fst (snd (background_time_check_chats w now rows d1))) =
        get_chat_settings ?c d1"
      using k1 by (intro chats_frame) simp_all
    with rest b True show ?thesis by (intro exI [of _ d]) simp
  next
    case False
    with Cons.prems(3) have r: "r \<in> set rows" by simp
    with Cons.prems(2) have other: "?c \<noteq> cs_chat_id row"
      by (metis distinct.simps(2) imageI list.simps(9) set_map)
    have same: "sessions_of ?c d1 = sessions_of ?c d" "get_chat_settings ?c d1 = get_chat_settings ?c d"
      using sessions_of_other_chat [OF Cons.prems(1) other, of w now]
        get_chat_settings_other_chat [OF other, of w now d] b by simp_all
    from Cons.prems(2) have "distinct (map cs_chat_id rows)" by simp
    from Cons.IH [OF k1 this r] obtain d0 where
      "sessions_of ?c d0 = sessions_of ?c d1 \<and> get_chat_settings ?c d0 = get_chat_settings ?c d1 \<and>
       sessions_of ?c (fst (snd (background_time_check_chats w now rows d1))) =
         sessions_of ?c (fst (snd (background_time_check_chat w now r d0))) \<and>
       get_chat_settings ?c (fst (snd (background_time_check_chats w now rows d1))) =
         get_chat_settings ?c (fst (snd (background_time_check_chat w now r d0)))"
      by blast
    with same rest show ?thesis by (intro exI [of _ d0]) simp
  qed
qed

lemma tick_own_row:
  assumes "no_faults w" and "keyed d" and "get_chat_settings c d = Some r"
    and "cs_night_mode_enabled r" and "cs_is_active r"
  shows "\<exists>d0. sessions_of c d0 = sessions_of c d \<and> get_chat_settings c d0 = Some r \<and>
     sessions_of c (fst (background_time_check_tick w now d)) =
       sessions_of c (fst (snd (background_time_check_chat w now r d0))) \<and>
     get_chat_settings c (fst (background_time_check_tick w now d)) =
       get_chat_settings c (fst (snd (background_time_check_chat w now r d0)))"
proof -
  have r: "r \<in> set (chat_settings d)" "cs_chat_id r = c"
    using get_chat_settings_Some [OF assms(3)] by simp_all
  with assms(4,5) have rows: "r \<in> set (select_enabled_chats d)"
    by (simp add: select_enabled_chats_def)
  have dist: "distinct (map cs_chat_id (select_enabled_chats d))"
    using keyedD(1) [OF assms(2)] by (simp add: select_enabled_chats_def distinct_map_filter)
  have tick: "fst (background_time_check_tick w now d) =
      fst (snd (background_time_check_chats w now (select_enabled_chats d) d))"
    using assms(1) by (simp add: background_time_check_tick_def no_faults_def split: prod.splits)
  from chats_own_row [OF assms(1,2) dist rows, of now] r(2) assms(3) tick
  show ?thesis by auto
qed

text \<open>What the row of a chat does to the chat when it opens and when it closes.\<close>

lemma open_sessions_activate_chat:
  "open_sessions c' (activate_chat c date d) = open_sessions c' d"
  by (rule open_sessions_cong) simp

lemma open_sessions_deactivate_chat:
  "open_sessions c' (deactivate_chat c d) = open_sessions c' d"
  by (rule open_sessions_cong) simp

text \<open>The latest open session is the one whose start time is greater than all others.\<close>

lemma latest_session_greatest:
  assumes "s \<in> set xs" and "\<forall>t \<in> set xs. t \<noteq> s \<longrightarrow> ns_start_time t < ns_start_time s"
  shows "latest_session xs = Some s"
  using assms
proof (induction xs)
  case Nil
  then show ?case by simp
next
  case (Cons x xs)
  show ?case
  proof (cases "latest_session xs")
    case None
    then have "xs = []" by (simp add: latest_session_None)
    with Cons.prems(1) None show ?thesis by simp
  next
    case (Some t)
    then have t: "t \<in> set xs" by (rule latest_session_mem)
    show ?thesis
    proof (cases "s \<in> set xs")
      case True
      with Cons.IH Cons.prems(2) have "latest_session xs = Some s" by simp
      with Some have ts: "t = s" by simp
      show ?thesis
      proof (cases "x = s")
        case True
        with Some ts show ?thesis by simp
      next
        case False
        with Cons.prems(2) have "ns_start_time x < ns_start_time s" by simp
        with Some ts show ?thesis by simp
      qed
    next
      case False
      with Cons.prems(1) have xs: "x = s" by simp
      from False t have "t \<noteq> s" by auto
      with Cons.prems(2) t have "ns_start_time t < ns_start_time s" by simp
      then have "\<not> ns_start_time s < ns_start_time t" by simp
      with Some xs show ?thesis by simp
    qed
  qed
qed

lemma chat_opens_newest:
  assumes "no_faults w" and "strftime_HM now = cs_start_time r"
    and "\<not> cs_is_night_mode_active r" and "get_chat_settings c d0 = Some r"
  shows "get_chat_settings c (fst (snd (background_time_check_chat w now r d0))) =
           Some (r\<lparr>cs_is_night_mode_active := True,
                   cs_last_notification_date := Some (strftime_Ymd now)\<rparr>) \<and>
         open_sessions c (fst (snd (background_time_check_chat w now r d0))) =
           filter (\<lambda>s. ns_session_id s \<noteq> str_int c @ ascii ''_'' @ strftime_Ymd_HM now)
             (open_sessions c d0) @
           [\<lparr>ns_session_id = str_int c @ ascii ''_'' @ strftime_Ymd_HM now, ns_chat_id = c,
             ns_start_time = isoformat now, ns_end_time = cs_end_time r, ns_message_count = 0,
             ns_is_completed = False\<rparr>]"
proof -
  have c: "cs_chat_id r = c" using get_chat_settings_Some [OF assms(4)] by simp
  show ?thesis
    using assms(4)
    by (simp add: chat_opens [OF assms(1,2,3)] c get_chat_settings_activate_chat
        open_sessions_activate_chat open_sessions_insert_or_replace_session)
qed

lemma chat_closes_selected:
  assumes "no_faults w" and "strftime_HM now = cs_end_time r"
    and "cs_is_night_mode_active r" and "get_chat_settings c d0 = Some r"
    and "select_open_session c d0 = Some sid"
  shows "get_chat_settings c (fst (snd (background_time_check_chat w now r d0))) =
           Some (r\<lparr>cs_is_night_mode_active := False\<rparr>) \<and>
         open_sessions c (fst (snd (background_time_check_chat w now r d0))) =
           filter (\<lambda>s. ns_session_id s \<noteq> sid) (open_sessions c d0)"
proof -
  have c: "cs_chat_id r = c" using get_chat_settings_Some [OF assms(4)] by simp
  show ?thesis
    using assms(4,5)
    by (simp add: chat_closes [OF assms(2,3)] c end_night_mode_no_faults [OF assms(1)]
        get_chat_settings_deactivate_chat open_sessions_deactivate_chat
        open_sessions_complete_session)
qed

lemma tick_opens_newest:
  assumes "keyed d" and "no_faults w" and "get_chat_settings c d = Some r"
    and "cs_night_mode_enabled r" and "cs_is_active r" and "\<not> cs_is_night_mode_active r"
    and "strftime_HM now = cs_start_time r"
  shows "get_chat_settings c (fst (background_time_check_tick w now d)) =
           Some (r\<lparr>cs_is_night_mode_active := True,
                   cs_last_notification_date := Some (strftime_Ymd now)\<rparr>) \<and>
         open_sessions c (fst (background_time_check_tick w now d)) =
           filter (\<lambda>s. ns_session_id s \<noteq> str_int c @ ascii ''_'' @ strftime_Ymd_HM now)
             (open_sessions c d) @
           [\<lparr>ns_session_id = str_int c @ ascii ''_'' @ strftime_Ymd_HM now, ns_chat_id = c,
             ns_start_time = isoformat now, ns_end_time = cs_end_time r, ns_message_count = 0,
             ns_is_completed = False\<rparr>]"
proof -
  obtain d0 where d0: "sessions_of c d0 = sessions_of c d" "get_chat_settings c d0 = Some r"
    "sessions_of c (fst (background_time_check_tick w now d)) =
       sessions_of c (fst (snd (background_time_check_chat w now r d0)))"
    "get_chat_settings c (fst (background_time_check_tick w now d)) =
       get_chat_settings c (fst (snd (background_time_check_chat w now r d0)))"
    using tick_own_row [OF assms(2,1,3,4,5), of now] by blast
  have same: "open_sessions c d0 = open_sessions c d"
    by (simp add: open_sessions_sessions_of d0(1))
  have after: "open_sessions c (fst (background_time_check_tick w now d)) =
      open_sessions c (fst (snd (background_time_check_chat w now r d0)))"
    by (simp add: open_sessions_sessions_of d0(3))
  from chat_opens_newest [OF assms(2,7,6) d0(2)]
  show ?thesis by (simp add: after same d0(4))
qed

lemma tick_closes_selected:
  assumes "keyed d" and "no_faults w" and "get_chat_settings c d = Some r"
    and "cs_night_mode_enabled r" and "cs_is_active r" and "cs_is_night_mode_active r"
    and "strftime_HM now = cs_end_time r" and "select_open_session c d = Some sid"
  shows "get_chat_settings c (fst (background_time_check_tick w now d)) =
           Some (r\<lparr>cs_is_night_mode_active := False\<rparr>) \<and>
         open_sessions c (fst (background_time_check_tick w now d)) =
           filter (\<lambda>s. ns_session_id s \<noteq> sid) (open_sessions c d)"
proof -
  obtain d0 where d0: "sessions_of c d0 = sessions_of c d" "get_chat_settings c d0 = Some r"
    "sessions_of c (fst (background_time_check_tick w now d)) =
       sessions_of c (fst (snd (background_time_check_chat w now r d0)))"
    "get_chat_settings c (fst (background_time_check_tick w now d)) =
       get_chat_settings c (fst (snd (background_time_check_chat w now r d0)))"
    using tick_own_row [OF assms(2,1,3,4,5), of now] by blast
  have same: "open_sessions c d0 = open_sessions c d"
    by (simp add: open_sessions_sessions_of d0(1))
  then have sel0: "select_open_session c d0 = Some sid"
    using assms(8) by (simp add: select_open_session_def)
  have after: "open_sessions c (fst (background_time_check_tick w now d)) =
      open_sessions c (fst (snd (background_time_check_chat w now r d0)))"
    by (simp add: open_sessions_sessions_of d0(3))
  from chat_closes_selected [OF assms(2,7,6) d0(2) sel0]
  show ?thesis by (simp add: after same d0(4))
qed

lemma tick_idles:
  assumes "keyed d" and "get_chat_settings c d = Some r"
    and "strftime_HM now \<noteq> cs_start_time r" and "strftime_HM now \<noteq> cs_end_time r"
  shows "get_chat_settings c (fst (background_time_check_tick w now d)) = Some r \<and>
         sessions_of c (fst (background_time_check_tick w now d)) = sessions_of c d"
proof -
  have rows: "cs_chat_id row \<noteq> c \<or>
      ((strftime_HM now = cs_start_time row \<longrightarrow> cs_is_night_mode_active row) \<and>
       (strftime_HM now = cs_end_time row \<longrightarrow> \<not> cs_is_night_mode_active row))"
    if "row \<in> set (select_enabled_chats d)" for row
  proof (cases "cs_chat_id row = c")
    case True
    from that have "row \<in> set (chat_settings d)" by (simp add: select_enabled_chats_def)
    with keyedD(1) [OF assms(1)] have "get_chat_settings (cs_chat_id row) d = Some row"
      by (simp add: get_chat_settings_def find_distinct_key)
    with True assms(2) have "row = r" by simp
    with assms(3,4) show ?thesis by simp
  next
    case False
    then show ?thesis by simp
  qed
  show ?thesis
    using chats_frame [of "select_enabled_chats d" c now d w, OF rows assms(1)] assms(2)
    by (auto simp: background_time_check_tick_def split: prod.splits)
qed

lemma keyed_run: "keyed d \<Longrightarrow> keyed (fst (background_time_check ticks d))"
proof (induction ticks arbitrary: d)
  case Nil
  then show ?case by simp
next
  case (Cons a ticks)
  obtain w t where a: "a = (w, t)" by (cases a)
  have "keyed (fst (background_time_check_tick w t d))"
    using Cons.prems by (rule keyed_tick)
  from Cons.IH [OF this] a show ?case
    by (auto split: prod.splits)
qed

lemma run_idles:
  "keyed d \<Longrightarrow> get_chat_settings c d = Some r \<Longrightarrow>
   \<forall>(w, t) \<in> set ticks. strftime_HM t \<noteq> cs_start_time r \<and> strftime_HM t \<noteq> cs_end_time r \<Longrightarrow>
   get_chat_settings c (fst (background_time_check ticks d)) = Some r \<and>
   sessions_of c (fst (background_time_check ticks d)) = sessions_of c d"
proof (induction ticks arbitrary: d)
  case Nil
  then show ?case by simp
next
  case (Cons a ticks)
  obtain w t where a: "a = (w, t)" by (cases a)
  let ?d1 = "fst (background_time_check_tick w t d)"
  have one: "get_chat_settings c ?d1 = Some r \<and> sessions_of c ?d1 = sessions_of c d"
    using Cons.prems a by (intro tick_idles) simp_all
  have "keyed ?d1" using Cons.prems(1) by (rule keyed_tick)
  from Cons.IH [OF this, of ] one Cons.prems(3) a show ?case
    by (auto split: prod.splits)
qed

lemma is_valid_time_500: "is_valid_time w (ascii ''5:00'')"
  by (simp add: is_valid_time_def ascii_def is_digit_def)

lemma short_end_db_eval:
  "short_end_db =
    \<lparr>chat_settings =
       [\<lparr>cs_chat_id = - 1001, cs_chat_title = None, cs_night_mode_enabled = True,
         cs_start_time = ascii ''23:00'', cs_end_time = ascii ''5:00'',
         cs_welcome_message = default_welcome_message, cs_is_active = True,
         cs_added_date = Some (isoformat (clock 2 12 0)),
         cs_last_notification_date = Some (strftime_Ymd (clock 2 23 0)),
         cs_is_night_mode_active = True\<rparr>],
     night_sessions =
       [\<lparr>ns_session_id = ascii ''-1001_20240302_2300'', ns_chat_id = - 1001,
         ns_start_time = isoformat (clock 2 23 0), ns_end_time = ascii ''5:00'',
         ns_message_count = 0, ns_is_completed = False\<rparr>],
     saved_messages = []\<rparr>"
proof -
  have v: "is_valid_time w [53, 58, 48, 48]" for w
    by (simp add: is_valid_time_def is_digit_def)
  show ?thesis
    by (simp add: short_end_db_def quiet_world_def background_time_check_tick_def
      background_time_check_chat_def select_enabled_chats_def enable_night_mode_def
      handle_waiting_time_def v update_end_time_def
      update_chat_settings_def add_chat_def empty_db_def insert_or_replace_session_def
      activate_chat_def send_message_def Let_def strftime_HM_23 strftime_Ymd_HM_23 str_int_1001
      ascii_def)
qed

text \<open>
  Claim C6 fails in two ways. The loop compares texts: the end time \<^verbatim>\<open>5:00\<close> passes
  \<^verbatim>\<open>is_valid_time\<close> and is stored as written, the clock renders five o'clock as
  \<^verbatim>\<open>05:00\<close>, and the session opened at 23:00 is still open after the tick at five
  o'clock. And a store exception in the tick keeps the transition from happening: chat
  \<open>-1001\<close>, due to open at 23:00, is not opened in the tick in which the INSERT for chat
  \<open>-1002\<close> raises, and the session of chat \<open>-1002\<close> is not closed at 05:00 in the tick in
  which \<^verbatim>\<open>end_night_mode\<close> cannot read the ledger.
\<close>

theorem session_is_not_closed_at_its_end_time:
  "is_valid_time quiet_world (ascii ''5:00'') \<and>
   map (\<lambda>r. (cs_start_time r, cs_end_time r, cs_is_night_mode_active r))
     (select_enabled_chats short_end_db) = [(ascii ''23:00'', ascii ''5:00'', True)] \<and>
   select_open_session (- 1001) short_end_db = Some (ascii ''-1001_20240302_2300'') \<and>
   dt_hour (clock 3 5 0) = 5 \<and> dt_minute (clock 3 5 0) = 0 \<and>
   background_time_check_tick quiet_world (clock 3 5 0) short_end_db = (short_end_db, []) \<and>
   map (\<lambda>r. (cs_chat_id r, cs_start_time r, cs_is_night_mode_active r))
     (select_enabled_chats two_chats_db) =
     [(- 1002, ascii ''23:00'', False), (- 1001, ascii ''23:00'', False)] \<and>
   select_open_session (- 1001)
     (fst (background_time_check_tick broken_world (clock 2 23 0) two_chats_db)) = None \<and>
   map (\<lambda>r. (cs_chat_id r, cs_end_time r, cs_is_night_mode_active r))
     (select_enabled_chats two_nights_db) =
     [(- 1002, ascii ''05:00'', True), (- 1001, ascii ''05:00'', True)] \<and>
   select_open_session (- 1002)
     (fst (background_time_check_tick failing_world (clock 3 5 0) two_nights_db)) =
     Some (ascii ''-1002_20240302_2300'')"
proof -
  have a: "map (\<lambda>r. (cs_start_time r, cs_end_time r, cs_is_night_mode_active r))
     (select_enabled_chats short_end_db) = [(ascii ''23:00'', ascii ''5:00'', True)]"
    by (simp add: select_enabled_chats_def short_end_db_eval)
  have b: "select_open_session (- 1001) short_end_db = Some (ascii ''-1001_20240302_2300'')"
    by (simp add: select_open_session_def open_sessions_def short_end_db_eval)
  have c: "dt_hour (clock 3 5 0) = 5 \<and> dt_minute (clock 3 5 0) = 0"
    by (simp add: clock_def)
  have d: "background_time_check_tick quiet_world (clock 3 5 0) short_end_db = (short_end_db, [])"
    by (simp add: short_end_db_eval quiet_world_def background_time_check_tick_def
      background_time_check_chat_def select_enabled_chats_def Let_def strftime_HM_05 ascii_def)
  have e: "map (\<lambda>r. (cs_chat_id r, cs_start_time r, cs_is_night_mode_active r))
     (select_enabled_chats two_chats_db) =
     [(- 1002, ascii ''23:00'', False), (- 1001, ascii ''23:00'', False)]"
    by (simp add: select_enabled_chats_def two_chats_db_eval)
  have "background_time_check_tick broken_world (clock 2 23 0) two_chats_db = (two_chats_db, [])"
    by (simp add: background_time_check_tick_def select_enabled_chats_def two_chats_db_eval
        background_time_check_chat_def broken_world_def quiet_world_def Let_def strftime_HM_23
        ascii_def)
  then have f: "select_open_session (- 1001)
     (fst (background_time_check_tick broken_world (clock 2 23 0) two_chats_db)) = None"
    by (simp add: select_open_session_None open_sessions_def two_chats_db_eval)
  have g: "map (\<lambda>r. (cs_chat_id r, cs_end_time r, cs_is_night_mode_active r))
     (select_enabled_chats two_nights_db) =
     [(- 1002, ascii ''05:00'', True), (- 1001, ascii ''05:00'', True)]"
    by (simp add: select_enabled_chats_def two_nights_db_eval)
  have h: "select_open_session (- 1002)
     (fst (background_time_check_tick failing_world (clock 3 5 0) two_nights_db)) =
     Some (ascii ''-1002_20240302_2300'')"
    by (simp add: two_nights_db_eval failing_world_def background_time_check_tick_def
      background_time_check_chat_def select_enabled_chats_def end_night_mode_def
      select_open_session_def open_sessions_def select_messages_def get_chat_settings_def
      complete_session_def deactivate_chat_def send_message_def Let_def strftime_HM_05 ascii_def)
  from is_valid_time_500 [of quiet_world] a b c d e f g h show ?thesis by (intro conjI) simp_all
qed

text \<open>
  Claim C6, amended. Take any state the program reaches and a chat that is switched on and
  not in night mode, whatever its window, so also one that crosses midnight such as 23:00
  to 05:00. A tick at which the clock, rendered as \<^verbatim>\<open>%H:%M\<close>, equals the stored start
  time opens a session for the chat, which becomes its current session, and sets its flag;
  any run of ticks whose rendered time is neither the stored start time nor the stored end
  time leaves the flag and that session as they are, whatever raises or fails in them; and
  the next tick whose rendered time equals the stored end time, on whatever date,
  completes that session and clears the flag. Only equality of texts is used; dates and
  durations play no part. No store statement raises in the two ticks that open and close,
  and the sessions of the chat that were left open before, if any, started before the
  opening tick.
\<close>

theorem window_opens_and_closes_by_time_of_day:
  assumes "reachable ok again d"
    and "get_chat_settings c d = Some r"
    and "cs_night_mode_enabled r" and "cs_is_active r" and "\<not> cs_is_night_mode_active r"
    and "\<forall>s \<in> set (open_sessions c d). ns_start_time s < isoformat t1"
    and "no_faults w1" and "strftime_HM t1 = cs_start_time r"
    and "\<forall>(w, t) \<in> set between.
           strftime_HM t \<noteq> cs_start_time r \<and> strftime_HM t \<noteq> cs_end_time r"
    and "no_faults w2" and "strftime_HM t2 = cs_end_time r"
  shows "let d1 = fst (background_time_check_tick w1 t1 d);
             d2 = fst (background_time_check between d1);
             d3 = fst (background_time_check_tick w2 t2 d2);
             sid = str_int c @ ascii ''_'' @ strftime_Ymd_HM t1;
             opened = r\<lparr>cs_is_night_mode_active := True,
                        cs_last_notification_date := Some (strftime_Ymd t1)\<rparr>
         in get_chat_settings c d1 = Some opened \<and>
            select_open_session c d1 = Some sid \<and>
            get_chat_settings c d2 = Some opened \<and>
            select_open_session c d2 = Some sid \<and>
            get_chat_settings c d3 = Some (opened\<lparr>cs_is_night_mode_active := False\<rparr>) \<and>
            open_sessions c d3 = filter (\<lambda>s. ns_session_id s \<noteq> sid) (open_sessions c d)"
proof -
  let ?d1 = "fst (background_time_check_tick w1 t1 d)"
  let ?d2 = "fst (background_time_check between ?d1)"
  let ?d3 = "fst (background_time_check_tick w2 t2 ?d2)"
  let ?opened = "r\<lparr>cs_is_night_mode_active := True,
                    cs_last_notification_date := Some (strftime_Ymd t1)\<rparr>"
  let ?sid = "str_int c @ ascii ''_'' @ strftime_Ymd_HM t1"
  let ?new = "\<lparr>ns_session_id = ?sid, ns_chat_id = c, ns_start_time = isoformat t1,
      ns_end_time = cs_end_time r, ns_message_count = 0, ns_is_completed = False\<rparr>"
  let ?old = "filter (\<lambda>s. ns_session_id s \<noteq> ?sid) (open_sessions c d)"
  have key: "keyed d" using assms(1) by (rule reachable_keyed)
  have open1: "get_chat_settings c ?d1 = Some ?opened"
    and os1: "open_sessions c ?d1 = ?old @ [?new]"
    using tick_opens_newest [OF key assms(7,2,3,4,5,8)] by simp_all
  have "latest_session (?old @ [?new]) = Some ?new"
    using assms(6) by (intro latest_session_greatest) auto
  then have sel1: "select_open_session c ?d1 = Some ?sid"
    by (simp add: select_open_session_def os1)
  have key1: "keyed ?d1" using key by (rule keyed_tick)
  have idle: "\<forall>(w, t) \<in> set between.
      strftime_HM t \<noteq> cs_start_time ?opened \<and> strftime_HM t \<noteq> cs_end_time ?opened"
    using assms(9) by auto
  have open2: "get_chat_settings c ?d2 = Some ?opened"
    and ss2: "sessions_of c ?d2 = sessions_of c ?d1"
    using run_idles [OF key1 open1 idle] by simp_all
  have os2: "open_sessions c ?d2 = open_sessions c ?d1"
    by (simp add: open_sessions_sessions_of ss2)
  have sel2: "select_open_session c ?d2 = Some ?sid"
    using sel1 by (simp add: select_open_session_def os2)
  have key2: "keyed ?d2" using key1 by (rule keyed_run)
  have close3: "get_chat_settings c ?d3 = Some (?opened\<lparr>cs_is_night_mode_active := False\<rparr>)"
    and os3: "open_sessions c ?d3 = filter (\<lambda>s. ns_session_id s \<noteq> ?sid) (open_sessions c ?d2)"
    using tick_closes_selected [OF key2 assms(10) open2 _ _ _ _ sel2, of t2] assms(3,4,11)
    by simp_all
  have os3': "open_sessions c ?d3 = ?old"
    by (simp add: os3 os2 os1)
  from open1 sel1 open2 sel2 close3 os3' show ?thesis by (simp add: Let_def)
qed

lemma strftime_HM_between:
  "strftime_HM (clock 2 23 30) = [50, 51, 58, 51, 48]"
  "strftime_HM (clock 3 0 0) = [48, 48, 58, 48, 48]"
  "strftime_HM (clock 3 4 59) = [48, 52, 58, 53, 57]"
  by (simp_all add: strftime_HM_def clock_def zfill_def ascii_def str_nat.simps)

theorem window_opens_and_closes_by_time_of_day_witness:
  "select_open_session (- 1001)
     (enable_night_mode quiet_world (- 1001) (add_chat (clock 2 12 0) (- 1001) empty_db)) = None \<and>
   select_open_session (- 1001) night_db = Some (ascii ''-1001_20240302_2300'') \<and>
   select_open_session (- 1001)
     (fst (background_time_check
        [(quiet_world, clock 2 23 30), (quiet_world, clock 3 0 0), (quiet_world, clock 3 4 59)]
        night_db)) = Some (ascii ''-1001_20240302_2300'') \<and>
   select_open_session (- 1001)
     (fst (background_time_check_tick quiet_world (clock 3 5 0)
        (fst (background_time_check
           [(quiet_world, clock 2 23 30), (quiet_world, clock 3 0 0), (quiet_world, clock 3 4 59)]
           night_db)))) = None"
proof -
  let ?d = "enable_night_mode quiet_world (- 1001) (add_chat (clock 2 12 0) (- 1001) empty_db)"
  let ?between = "[(quiet_world, clock 2 23 30), (quiet_world, clock 3 0 0), (quiet_world, clock 3 4 59)]"
  have reach: "reachable no_faults False ?d"
    by (intro reachable.r_enabled reachable.r_registered reachable.r_initial
        no_faults_quiet_world)
       (simp add: get_chat_settings_def empty_db_def)
  obtain r where r: "get_chat_settings (- 1001) ?d = Some r" "cs_night_mode_enabled r"
    "cs_is_active r" "\<not> cs_is_night_mode_active r" "cs_start_time r = [50, 51, 58, 48, 48]"
    "cs_end_time r = [48, 53, 58, 48, 48]"
    by (simp add: get_chat_settings_def enable_night_mode_def update_chat_settings_def
        quiet_world_def add_chat_def empty_db_def ascii_def)
  have t1: "strftime_HM (clock 2 23 0) = cs_start_time r"
    by (simp add: r(5) strftime_HM_23)
  have t2: "strftime_HM (clock 3 5 0) = cs_end_time r"
    by (simp add: r(6) strftime_HM_05)
  have between: "\<forall>(w, t) \<in> set ?between.
      strftime_HM t \<noteq> cs_start_time r \<and> strftime_HM t \<noteq> cs_end_time r"
    by (simp add: strftime_HM_between r(5,6))
  have none: "open_sessions (- 1001) ?d = []"
    by (simp add: open_sessions_def enable_night_mode_def
        update_chat_settings_def quiet_world_def add_chat_def empty_db_def)
  have stale: "\<forall>s \<in> set (open_sessions (- 1001) ?d). ns_start_time s < isoformat (clock 2 23 0)"
    by (simp add: none)
  have before: "select_open_session (- 1001) ?d = None"
    by (simp add: select_open_session_None none)
  have sid: "str_int (- 1001) @ ascii ''_'' @ strftime_Ymd_HM (clock 2 23 0) =
      ascii ''-1001_20240302_2300''"
    by (simp add: str_int_1001 strftime_Ymd_HM_23 ascii_def)
  from window_opens_and_closes_by_time_of_day [OF reach r(1,2,3,4) stale
      no_faults_quiet_world t1 between no_faults_quiet_world t2]
  show ?thesis
    unfolding Let_def sid none
    using before by (simp add: night_db_def select_open_session_None)
qed

end
